theory Spec2Isabelle
  imports Main "HOL-Library.Word"
begin

section \<open>Run-time faults and pointers\<close>

text \<open>
  Go code can stop with a run-time panic instead of returning. Every function of the
  model returns a sum: \<open>Inl\<close> is the panic, \<open>Inr\<close> the returned value; a function that
  writes to the state before it can panic gives, with the panic, the state it leaves. The
  panics that the modelled code can raise are: a nil pointer dereference, an index out of
  range (index and length), a call of a \<open>reflect.Value\<close> method on the zero Value, an
  explicit \<open>panic("...")\<close>, and a panic raised inside user code (a \<open>DecodeField\<close> method).
  \<open>IllTypedStore\<close> marks states that a well-typed Go program never reaches (an address
  that is not allocated, or a cell holding a value of another type than its pointer says).
\<close>

datatype panic =
    NilPointerDereference
  | IndexOutOfRange nat nat
  | ZeroValue string
  | PanicString string
  | UserPanic string
  | IllTypedStore

type_synonym addr = nat

text \<open>
  A store is a list of cells; an address is an index into it; allocation appends a cell,
  so a new address is always fresh. A pointer is \<open>addr option\<close>, \<open>None\<close> being \<open>nil\<close>.
\<close>

definition deref :: "'a list \<Rightarrow> addr option \<Rightarrow> panic + 'a" where
  "deref st p =
     (case p of
        None \<Rightarrow> Inl NilPointerDereference
      | Some a \<Rightarrow> if a < length st then Inr (st ! a) else Inl IllTypedStore)"

section \<open>Error model (error.go)\<close>

record ResourceError =
  Method :: string
  URL :: string
  StatusCode :: int
  Message :: string

text \<open>
  The values of Go's \<open>error\<close> interface that occur in the package: the sentinel \<open>ErrOK\<close>
  (one fixed object, compared by identity), any other error built from a text
  (\<open>fmt.Errorf\<close>; never identical to \<open>ErrOK\<close>, whatever its text), and a
  \<open>*ResourceError\<close>, which may be a nil pointer wrapped in a non-nil interface value.
  The nil interface value is \<open>None :: error option\<close>.
\<close>

datatype error =
    ErrOK
  | errorString string
  | PtrResourceError "addr option"

definition IsStatusError ::
  "ResourceError list \<Rightarrow> int \<Rightarrow> error option \<Rightarrow> panic + (addr option \<times> bool)" where
  "IsStatusError st statusCode target =
     (case target of
        None \<Rightarrow> Inr (None, False)
      | Some (PtrResourceError t) \<Rightarrow>
          (case deref st t of
             Inl p \<Rightarrow> Inl p
           | Inr r \<Rightarrow> Inr (t, StatusCode r = statusCode))
      | Some _ \<Rightarrow> Inr (None, False))"

definition IsResourceError ::
  "ResourceError list \<Rightarrow> addr option \<Rightarrow> error option \<Rightarrow> panic + bool" where
  "IsResourceError st e target =
     (case target of
        None \<Rightarrow> Inr (e = None)
      | Some (PtrResourceError tp) \<Rightarrow>
          (case deref st e of
             Inl p \<Rightarrow> Inl p
           | Inr ev \<Rightarrow>
               (case deref st tp of
                  Inl p \<Rightarrow> Inl p
                | Inr t \<Rightarrow>
                    Inr ((Method ev = Method t \<or> Method t = [])
                       \<and> (URL ev = URL t \<or> URL t = [])
                       \<and> (StatusCode ev = StatusCode t \<or> StatusCode t \<le> 0)
                       \<and> (Message ev = Message t \<or> Message t = []))))
      | Some _ \<Rightarrow> Inr False)"

text \<open>The method \<open>(*ResourceError).Is\<close>, the hook of \<open>errors.Is\<close>.\<close>

definition ResourceError_Is ::
  "ResourceError list \<Rightarrow> addr option \<Rightarrow> error option \<Rightarrow> panic + bool" where
  "ResourceError_Is st e target = IsResourceError st e target"

text \<open>The two errors of the specification's example, stored at addresses 0 to 2.\<close>

definition example_errors :: "ResourceError list" where
  "example_errors =
     [\<lparr>Method = ''GET'', URL = ''x'', StatusCode = 404, Message = ''m''\<rparr>,
      \<lparr>Method = [], URL = [], StatusCode = 404, Message = []\<rparr>,
      \<lparr>Method = ''POST'', URL = [], StatusCode = 404, Message = []\<rparr>]"

section \<open>Types and values (package reflect, as far as values.go uses it)\<close>

text \<open>
  \<open>reflect.Kind\<close> (\<open>KStruct\<close> for \<open>reflect.Struct\<close>, and so on), \<open>reflect.Type\<close> and the Go values behind \<open>interface{}\<close> and
  \<open>reflect.Value\<close>. The universe of types is: the predeclared types of the cells of a
  sheet (\<open>bool\<close>, \<open>string\<close>, \<open>float64\<close> from JSON, \<open>int\<close> as in the package's tests),
  the empty interface, pointers, slices, and defined struct types. \<open>TStruct n fs\<close> is the
  defined type \<open>type n struct {fs}\<close>. A struct field carries what \<open>reflect.StructField\<close>
  gives: its name, its \<open>PkgPath\<close> (empty exactly for an exported field), the value of
  \<open>Tag.Get("sheets")\<close> (empty when the tag has no such key) and its type.
\<close>

datatype Kind = KInvalid | KBool | KInt | KFloat64 | KString | KInterface | KPtr | KSlice | KStruct

datatype gotype =
    TBool
  | TInt
  | TFloat64
  | TString
  | TInterface
  | TPtr gotype
  | TSlice gotype
  | TStruct string "StructField list"
and StructField =
    StructField (f_Name: string) (f_PkgPath: string) (f_Tag: string) (f_Type: gotype)

primrec Kind_of :: "gotype \<Rightarrow> Kind" where
  "Kind_of TBool = KBool"
| "Kind_of TInt = KInt"
| "Kind_of TFloat64 = KFloat64"
| "Kind_of TString = KString"
| "Kind_of TInterface = KInterface"
| "Kind_of (TPtr t) = KPtr"
| "Kind_of (TSlice t) = KSlice"
| "Kind_of (TStruct n fs) = KStruct"

text \<open>The fields of a struct type, in declaration order (\<open>NumField\<close>, \<open>Field(i)\<close>).\<close>

primrec Fields :: "gotype \<Rightarrow> StructField list" where
  "Fields TBool = []"
| "Fields TInt = []"
| "Fields TFloat64 = []"
| "Fields TString = []"
| "Fields TInterface = []"
| "Fields (TPtr t) = []"
| "Fields (TSlice t) = []"
| "Fields (TStruct n fs) = fs"

text \<open>
  Values. \<open>VNil\<close> is the nil interface value (a JSON \<open>null\<close> cell), whose
  \<open>reflect.ValueOf\<close> is the zero Value. A \<open>float64\<close> is carried as its 64 bits; the
  code never computes with it. \<open>VPtr t p\<close> has type \<open>*t\<close>, \<open>VSlice t xs\<close> has type
  \<open>[]t\<close>, \<open>VStruct t fs\<close> is a value of the struct type \<open>t\<close> with field values \<open>fs\<close>.
\<close>

datatype goval =
    VNil
  | VBool bool
  | VInt int
  | VFloat64 "64 word"
  | VString string
  | VPtr gotype "addr option"
  | VSlice gotype "goval list"
  | VStruct gotype "goval list"

text \<open>\<open>reflect.ValueOf(v).Type()\<close>: \<open>None\<close> for the zero Value, where Go panics.\<close>

primrec TypeOf :: "goval \<Rightarrow> gotype option" where
  "TypeOf VNil = None"
| "TypeOf (VBool b) = Some TBool"
| "TypeOf (VInt i) = Some TInt"
| "TypeOf (VFloat64 x) = Some TFloat64"
| "TypeOf (VString s) = Some TString"
| "TypeOf (VPtr t p) = Some (TPtr t)"
| "TypeOf (VSlice t xs) = Some (TSlice t)"
| "TypeOf (VStruct t fs) = Some t"

text \<open>
  \<open>V.AssignableTo(T)\<close> on this universe, after the Go specification: the types are
  identical, or \<open>T\<close> is an interface that \<open>V\<close> implements (every type implements the
  empty interface). The rule for identical underlying types adds nothing here: the
  predeclared and the struct types are all named, and two pointer or slice types with
  identical underlying types are identical.
\<close>

definition AssignableTo :: "gotype \<Rightarrow> gotype \<Rightarrow> bool" where
  "AssignableTo V T = (V = T \<or> T = TInterface)"

text \<open>The zero value of a type, which \<open>reflect.New\<close> allocates.\<close>

primrec Zero :: "gotype \<Rightarrow> goval" and Zero_field :: "StructField \<Rightarrow> goval" where
  "Zero TBool = VBool False"
| "Zero TInt = VInt 0"
| "Zero TFloat64 = VFloat64 0"
| "Zero TString = VString []"
| "Zero TInterface = VNil"
| "Zero (TPtr t) = VPtr t None"
| "Zero (TSlice t) = VSlice t []"
| "Zero (TStruct n fs) = VStruct (TStruct n fs) (map Zero_field fs)"
| "Zero_field (StructField n p tg t) = Zero t"

section \<open>Metadata reflector (values.go)\<close>

record ValueRange =
  Range' :: string
  MajorDimension :: string
  Values :: "goval list list"

record Header =
  Name :: string
  FieldIndex :: nat
  FieldName :: string
  FieldType :: gotype

text \<open>
  A \<open>DecodeField\<close> method has a pointer receiver and is handed the pointer \<open>h\<close> to the
  cached \<open>Header\<close> (\<open>meta.headers[i]\<close> is a \<open>*Header\<close>): it reads and writes the struct
  behind the receiver and the \<open>Header\<close> behind \<open>h\<close>. It is modelled as a function from
  the \<open>Header\<close>, the cell value and the struct before the call to what the call leaves:
  its outcome (\<open>Inr\<close> the returned error, \<open>Inl\<close> the message of a panic raised by the
  user's code), the struct and the \<open>Header\<close> as they are when the call ends, by return
  or by panic. Writes through a pointer that the method has kept from an earlier call
  are not part of the model.
\<close>

type_synonym FieldDecoder =
  "Header \<Rightarrow> goval \<Rightarrow> goval \<Rightarrow> (string + error option) \<times> goval \<times> Header"

text \<open>
  The compiled program fixes which struct types have a \<open>DecodeField\<close> method on their
  pointer type with the signature of the interface \<open>FieldDecoder\<close>: a table from the
  type to its method, which the functions below take as their first argument.
  \<open>typPtr.Implements(fieldDecoderTyp)\<close> is \<open>methods typ \<noteq> None\<close>, and
  \<open>MethodByName("DecodeField")\<close> then finds that method.
\<close>

type_synonym MethodTable = "gotype \<Rightarrow> FieldDecoder option"

text \<open>
  The \<open>metadata\<close> object. Its slice \<open>headers\<close> holds pointers to \<open>Header\<close> objects that
  nothing else points to when the object is built; the model keeps each \<open>Header\<close> in
  its place of the list, and a write through \<open>meta.headers[i]\<close> is an update of the
  list at \<open>i\<close>.
\<close>

record metadata =
  headers :: "Header list"
  typ' :: gotype
  decodeFieldFunc :: "FieldDecoder option"

text \<open>
  The state: the heap of Go values, the allocated \<open>metadata\<close> objects, and the package
  variable \<open>cache\<close>, a map from a type to a pointer to its metadata.
\<close>

record world =
  heap :: "goval list"
  metas :: "metadata list"
  cache :: "gotype \<Rightarrow> addr option"

text \<open>
  The loop \<open>for i := 0; i < n; i++\<close> of \<open>getMetadata\<close>: \<open>fieldsLoop i fs hs\<close> runs
  it from index \<open>i\<close>, \<open>fs\<close> being the fields from \<open>i\<close> on and \<open>hs\<close> the slice
  \<open>headers\<close> built so far.
\<close>

fun fieldsLoop :: "nat \<Rightarrow> StructField list \<Rightarrow> Header list \<Rightarrow> Header list" where
  "fieldsLoop i [] hs = hs"
| "fieldsLoop i (f # fs) hs =
     (if f_PkgPath f \<noteq> [] then fieldsLoop (i + 1) fs hs
      else if f_Tag f = [] then
        fieldsLoop (i + 1) fs
          (hs @ [\<lparr>Name = f_Name f, FieldIndex = i, FieldName = f_Name f, FieldType = f_Type f\<rparr>])
      else if f_Tag f = ''-'' then fieldsLoop (i + 1) fs hs
      else
        fieldsLoop (i + 1) fs
          (hs @ [\<lparr>Name = f_Tag f, FieldIndex = i, FieldName = f_Name f, FieldType = f_Type f\<rparr>]))"

text \<open>The metadata that \<open>getMetadata\<close> builds on a cache miss (lines 106 to 140).\<close>

definition newMetadata :: "MethodTable \<Rightarrow> gotype \<Rightarrow> metadata" where
  "newMetadata methods typ =
     \<lparr>headers = fieldsLoop 0 (Fields typ) [], typ' = typ, decodeFieldFunc = methods typ\<rparr>"

text \<open>
  \<open>getMetadata\<close> works in two critical sections. The first one (lines 95 to 97, under the
  read lock) looks the type up. After a miss the call builds the metadata, which reads
  no shared state, and the second one (lines 142 to 144, under the write lock) stores
  the pointer in \<open>cache\<close> without looking the type up again: \<open>publish\<close> is the allocation of
  the new object together with that store. A call that runs alone is the lookup followed,
  on a miss, by \<open>publish\<close>; the panic for a type that is not a struct comes before any
  write. Two calls that overlap can both miss and then both publish.
\<close>

definition publish :: "MethodTable \<Rightarrow> gotype \<Rightarrow> world \<Rightarrow> addr \<times> world" where
  "publish methods typ w =
     (let meta = length (metas w)
      in (meta, w\<lparr>metas := metas w @ [newMetadata methods typ],
                  cache := (cache w)(typ := Some meta)\<rparr>))"

definition getMetadata :: "MethodTable \<Rightarrow> gotype \<Rightarrow> world \<Rightarrow> panic + (addr \<times> world)" where
  "getMetadata methods typ w =
     (case cache w typ of
        Some meta \<Rightarrow> Inr (meta, w)
      | None \<Rightarrow>
          if Kind_of typ \<noteq> KStruct then Inl (PanicString ''not a struct type'')
          else Inr (publish methods typ w))"

section \<open>Binding engine (values.go)\<close>

text \<open>
  The functions of the binding engine write to the struct, and through a \<open>DecodeField\<close>
  method to the cached headers, before they return or panic. Their result is \<open>Inr\<close> of the
  returned error with the state they leave, or \<open>Inl\<close> of the panic with the state as it
  is when the panic is raised, which is what a caller that recovers from the panic
  goes on with.
\<close>

definition stateAfter :: "('p \<times> 'st) + ('e \<times> 'st) \<Rightarrow> 'st" where
  "stateAfter r = (case r of Inl (p, st) \<Rightarrow> st | Inr (e, st) \<Rightarrow> st)"

text \<open>
  The default assignment of \<open>decodeValue\<close> (lines 233 to 238) for the header \<open>h\<close>, the
  cell \<open>val\<close> and the struct \<open>s\<close> behind \<open>newStructOrPtr\<close>. \<open>val.Type()\<close> panics on the
  zero Value; \<open>Field\<close> panics on an index that the struct type does not have; \<open>Set\<close>
  panics on an unexported field. A panic leaves the struct as it was.
\<close>

definition assignField :: "Header \<Rightarrow> goval \<Rightarrow> goval \<Rightarrow> panic + goval" where
  "assignField h val s =
     (case TypeOf val of
        None \<Rightarrow> Inl (ZeroValue ''reflect: call of reflect.Value.Type on zero Value'')
      | Some vt \<Rightarrow>
          if AssignableTo vt (FieldType h) then
            (case s of
               VStruct t fs \<Rightarrow>
                 if length (Fields t) \<le> FieldIndex h then
                   Inl (PanicString ''reflect: Field index out of range'')
                 else if f_PkgPath (Fields t ! FieldIndex h) \<noteq> [] then
                   Inl (PanicString ''reflect: reflect.Value.Set using value obtained using unexported field'')
                 else if length fs \<le> FieldIndex h then Inl IllTypedStore
                 else Inr (VStruct t (fs[FieldIndex h := val]))
             | _ \<Rightarrow> Inl IllTypedStore)
          else Inr s)"

text \<open>
  One iteration of the loop \<open>for i, value := range row\<close>, on the struct \<open>s\<close> behind the
  pointer and the metadata \<open>meta\<close>. The result \<open>Inr (Some err, s', meta')\<close> stands for
  \<open>return err\<close>; the result \<open>Inr (None, s', meta')\<close> goes on to the next cell. \<open>Call\<close>
  panics on a zero Value argument. The method is called with the pointer
  \<open>meta.headers[i]\<close>; what it leaves behind that pointer is the header that the default
  assignment then reads (\<open>h.FieldType\<close>, \<open>h.FieldIndex\<close>).
\<close>

definition decodeCell ::
  "metadata \<Rightarrow> nat \<Rightarrow> goval \<Rightarrow> goval
    \<Rightarrow> (panic \<times> goval \<times> metadata) + (error option \<times> goval \<times> metadata)" where
  "decodeCell meta i val s =
     (if length (headers meta) \<le> i then
        Inl (IndexOutOfRange i (length (headers meta)), s, meta)
      else
        let h = headers meta ! i
        in case decodeFieldFunc meta of
             None \<Rightarrow>
               (case assignField h val s of
                  Inl p \<Rightarrow> Inl (p, s, meta)
                | Inr s' \<Rightarrow> Inr (None, s', meta))
           | Some f \<Rightarrow>
               if val = VNil then
                 Inl (ZeroValue ''reflect: Call using zero Value argument'', s, meta)
               else
                 (case f h val s of
                    (out, s', h') \<Rightarrow>
                      let meta' = meta\<lparr>headers := (headers meta)[i := h']\<rparr>
                      in case out of
                           Inl msg \<Rightarrow> Inl (UserPanic msg, s', meta')
                         | Inr None \<Rightarrow> Inr (None, s', meta')
                         | Inr (Some err) \<Rightarrow>
                             if err \<noteq> ErrOK then Inr (Some err, s', meta')
                             else
                               (case assignField h' val s' of
                                  Inl p \<Rightarrow> Inl (p, s', meta')
                                | Inr s'' \<Rightarrow> Inr (None, s'', meta'))))"

fun decodeLoop ::
  "metadata \<Rightarrow> nat \<Rightarrow> goval list \<Rightarrow> goval
    \<Rightarrow> (panic \<times> goval \<times> metadata) + (error option \<times> goval \<times> metadata)" where
  "decodeLoop meta i [] s = Inr (None, s, meta)"
| "decodeLoop meta i (val # row) s =
     (case decodeCell meta i val s of
        Inl e \<Rightarrow> Inl e
      | Inr (Some err, s', meta') \<Rightarrow> Inr (Some err, s', meta')
      | Inr (None, s', meta') \<Rightarrow> decodeLoop meta' (i + 1) row s')"

text \<open>
  \<open>decodeValue row meta newStructOrPtr\<close>, as a function of the struct behind the pointer
  and of the object behind \<open>meta\<close> (\<open>None\<close> for nil): it returns the error, or the
  panic, with the struct and the metadata as the call leaves them.
\<close>

definition decodeValue ::
  "goval list \<Rightarrow> metadata option \<Rightarrow> goval
    \<Rightarrow> (panic \<times> goval \<times> metadata option) + (error option \<times> goval \<times> metadata option)" where
  "decodeValue row meta s =
     (case meta of
        None \<Rightarrow> Inr (None, s, None)
      | Some m \<Rightarrow>
          if length row = 0 \<or> length (headers m) = 0 then Inr (None, s, Some m)
          else
            (case decodeLoop m 0 row s of
               Inl (p, s', m') \<Rightarrow> Inl (p, s', Some m')
             | Inr (err, s', m') \<Rightarrow> Inr (err, s', Some m')))"

text \<open>
  \<open>decodeValue\<close> called with the pointer \<open>meta\<close> to a metadata object and the pointer \<open>a\<close>
  to the struct: both objects are updated in place (\<open>writeBack\<close>).
\<close>

definition writeBack :: "addr \<Rightarrow> addr \<Rightarrow> goval \<times> metadata option \<Rightarrow> world \<Rightarrow> world" where
  "writeBack meta a st w =
     (case st of
        (s', None) \<Rightarrow> w\<lparr>heap := (heap w)[a := s']\<rparr>
      | (s', Some m') \<Rightarrow> w\<lparr>heap := (heap w)[a := s'], metas := (metas w)[meta := m']\<rparr>)"

definition decodeValueAt ::
  "goval list \<Rightarrow> addr \<Rightarrow> addr \<Rightarrow> world \<Rightarrow> (panic \<times> world) + (error option \<times> world)" where
  "decodeValueAt row meta a w =
     (if length (heap w) \<le> a \<or> length (metas w) \<le> meta then Inl (IllTypedStore, w)
      else
        case decodeValue row (Some (metas w ! meta)) (heap w ! a) of
          Inl (p, st) \<Rightarrow> Inl (p, writeBack meta a st w)
        | Inr (err, st) \<Rightarrow> Inr (err, writeBack meta a st w))"

text \<open>\<open>reflect.New(typ)\<close>: a new cell holding the zero value; the pointer to it.\<close>

definition New :: "gotype \<Rightarrow> world \<Rightarrow> addr \<times> world" where
  "New typ w = (length (heap w), w\<lparr>heap := heap w @ [Zero typ]\<rparr>)"

text \<open>
  \<open>elem.Set(reflect.Append(elem, x))\<close>, \<open>elem\<close> being the slice stored at \<open>d\<close>. A slice is
  modelled by its elements; the sharing of backing arrays between slices is not.
\<close>

definition AppendSet :: "addr \<Rightarrow> goval \<Rightarrow> world \<Rightarrow> panic + world" where
  "AppendSet d x w =
     (if length (heap w) \<le> d then Inl IllTypedStore
      else
        case heap w ! d of
          VSlice t xs \<Rightarrow> Inr (w\<lparr>heap := (heap w)[d := VSlice t (xs @ [x])]\<rparr>)
        | _ \<Rightarrow> Inl IllTypedStore)"

text \<open>The inner loop \<open>for _, row := range rangeValue.Values\<close> and the outer loop over \<open>rangeValues\<close>.\<close>

fun rowsLoop ::
  "gotype \<Rightarrow> addr \<Rightarrow> bool \<Rightarrow> addr \<Rightarrow> goval list list \<Rightarrow> world
    \<Rightarrow> (panic \<times> world) + (error option \<times> world)" where
  "rowsLoop typ meta ptrElements d [] w = Inr (None, w)"
| "rowsLoop typ meta ptrElements d (row # rows) w =
     (case New typ w of
        (newStructValue, w1) \<Rightarrow>
          (case decodeValueAt row meta newStructValue w1 of
             Inl e \<Rightarrow> Inl e
           | Inr (Some err, w2) \<Rightarrow> Inr (Some err, w2)
           | Inr (None, w2) \<Rightarrow>
               (case AppendSet d
                       (if ptrElements then VPtr typ (Some newStructValue)
                        else heap w2 ! newStructValue) w2 of
                  Inl p \<Rightarrow> Inl (p, w2)
                | Inr w3 \<Rightarrow> rowsLoop typ meta ptrElements d rows w3)))"

fun rangesLoop ::
  "gotype \<Rightarrow> addr \<Rightarrow> bool \<Rightarrow> addr \<Rightarrow> ValueRange list \<Rightarrow> world
    \<Rightarrow> (panic \<times> world) + (error option \<times> world)" where
  "rangesLoop typ meta ptrElements d [] w = Inr (None, w)"
| "rangesLoop typ meta ptrElements d (rangeValue # rest) w =
     (case rowsLoop typ meta ptrElements d (Values rangeValue) w of
        Inl e \<Rightarrow> Inl e
      | Inr (Some err, w') \<Rightarrow> Inr (Some err, w')
      | Inr (None, w') \<Rightarrow> rangesLoop typ meta ptrElements d rest w')"

text \<open>\<open>typ.Elem()\<close>, called only on pointer and slice types.\<close>

primrec Elem :: "gotype \<Rightarrow> gotype" where
  "Elem TBool = TBool"
| "Elem TInt = TInt"
| "Elem TFloat64 = TFloat64"
| "Elem TString = TString"
| "Elem TInterface = TInterface"
| "Elem (TPtr t) = t"
| "Elem (TSlice t) = t"
| "Elem (TStruct n fs) = TStruct n fs"

text \<open>The slice branch of \<open>DecodeValueRange\<close> from \<open>meta := getMetadata(typ)\<close> on (lines 181 to 203).\<close>

definition decodeSlice ::
  "MethodTable \<Rightarrow> gotype \<Rightarrow> bool \<Rightarrow> addr \<Rightarrow> ValueRange list \<Rightarrow> world
    \<Rightarrow> (panic \<times> world) + (error option \<times> world)" where
  "decodeSlice methods typ ptrElements d rangeValues w =
     (case getMetadata methods typ w of
        Inl p \<Rightarrow> Inl (p, w)
      | Inr (meta, w1) \<Rightarrow> rangesLoop typ meta ptrElements d rangeValues w1)"

text \<open>The last line of \<open>DecodeValueRange\<close> (line 208): the destination is a pointer to a struct.\<close>

definition decodeStruct ::
  "MethodTable \<Rightarrow> gotype \<Rightarrow> addr \<Rightarrow> ValueRange list \<Rightarrow> world
    \<Rightarrow> (panic \<times> world) + (error option \<times> world)" where
  "decodeStruct methods typ d rangeValues w =
     (case getMetadata methods typ w of
        Inl p \<Rightarrow> Inl (p, w)
      | Inr (meta, w1) \<Rightarrow> decodeValueAt (Values (rangeValues ! 0) ! 0) meta d w1)"

text \<open>
  \<open>DecodeValueRange dest rangeValues\<close>. \<open>dest\<close> is any Go value; \<open>reflect.ValueOf(dest)\<close>
  has kind \<open>Ptr\<close> exactly for a \<open>VPtr\<close>. \<open>v.Elem()\<close> of a nil pointer is the zero Value,
  on which \<open>Type\<close> panics.
\<close>

definition DecodeValueRange ::
  "MethodTable \<Rightarrow> goval \<Rightarrow> ValueRange list \<Rightarrow> world
    \<Rightarrow> (panic \<times> world) + (error option \<times> world)" where
  "DecodeValueRange methods dest rangeValues w =
     (if length rangeValues = 0 then Inr (None, w)
      else if length (Values (rangeValues ! 0)) = 0 then Inr (None, w)
      else
        case dest of
          VPtr typ p \<Rightarrow>
            (case p of
               None \<Rightarrow> Inl (ZeroValue ''reflect: call of reflect.Value.Type on zero Value'', w)
             | Some d \<Rightarrow>
                 if Kind_of typ = KSlice then
                   if Kind_of (Elem typ) = KPtr then
                     if Kind_of (Elem (Elem typ)) = KStruct then
                       decodeSlice methods (Elem (Elem typ)) True d rangeValues w
                     else
                       Inr (Some (errorString ''not a pointer to a slice of pointers of structs''), w)
                   else if Kind_of (Elem typ) \<noteq> KStruct then
                     Inr (Some (errorString ''not a pointer to a slice of structs''), w)
                   else decodeSlice methods (Elem typ) False d rangeValues w
                 else if Kind_of typ \<noteq> KStruct then
                   Inr (Some (errorString ''not a pointer to a struct''), w)
                 else decodeStruct methods typ d rangeValues w)
        | _ \<Rightarrow> Inr (Some (errorString ''not a pointer''), w))"

section \<open>The specification's view of the metadata, and the life of the process\<close>

text \<open>
  The descriptor list as the specification words it: one descriptor per field, in
  declaration order, leaving out the fields that are not exported and the fields whose
  tag is \<open>-\<close>; the name is the tag when there is one and the field's name otherwise.
\<close>

definition describe :: "gotype \<Rightarrow> Header list" where
  "describe typ =
     map (\<lambda>(i, f). \<lparr>Name = (if f_Tag f = [] then f_Name f else f_Tag f), FieldIndex = i,
                      FieldName = f_Name f, FieldType = f_Type f\<rparr>)
         (filter (\<lambda>(i, f). f_PkgPath f = [] \<and> f_Tag f \<noteq> ''-'')
                 (zip [0..<length (Fields typ)] (Fields typ)))"

text \<open>
  A cache as \<open>getMetadata\<close> leaves it: every entry of \<open>cache\<close> points to an allocated
  \<open>metadata\<close> object, which holds what \<open>getMetadata\<close> builds for that type. The variable
  \<open>cache\<close> is private to the package and starts empty (\<open>world0\<close>).
\<close>

definition cache_ok :: "MethodTable \<Rightarrow> world \<Rightarrow> bool" where
  "cache_ok methods w =
     (\<forall>t a. cache w t = Some a \<longrightarrow> a < length (metas w) \<and> metas w ! a = newMetadata methods t)"

definition world0 :: world where
  "world0 = \<lparr>heap = [], metas = [], cache = (\<lambda>t. None)\<rparr>"

text \<open>
  The life of the process, as far as the cache goes: a sequence of calls of the two
  functions that reach \<open>cache\<close>, one after the other, with the caller's own code between
  them. \<open>step\<close> is the state after a call, whether it has returned or panicked (a caller
  can recover from the panic and go on; a process that does not recover ends there,
  with a shorter sequence). The caller's code allocates and writes Go values of its own,
  which is a new heap; \<open>cache\<close> and the \<open>metadata\<close> objects are not exported.
\<close>

datatype call =
    CallGetMetadata gotype
  | CallDecodeValueRange goval "ValueRange list"
  | CallerCode "goval list"

definition step :: "MethodTable \<Rightarrow> call \<Rightarrow> world \<Rightarrow> world" where
  "step methods c w =
     (case c of
        CallGetMetadata t \<Rightarrow>
          (case getMetadata methods t w of Inl p \<Rightarrow> w | Inr (m, w') \<Rightarrow> w')
      | CallDecodeValueRange dest rangeValues \<Rightarrow>
          stateAfter (DecodeValueRange methods dest rangeValues w)
      | CallerCode hp \<Rightarrow> w\<lparr>heap := hp\<rparr>)"

fun run :: "MethodTable \<Rightarrow> call list \<Rightarrow> world \<Rightarrow> world" where
  "run methods [] w = w"
| "run methods (c # cs) w = run methods cs (step methods c w)"

text \<open>
  What a call of the package keeps of an allocated \<open>metadata\<close> object: its type, its
  method and the length of its slice of headers; and all of its content when the type
  has no \<open>DecodeField\<close> method.
\<close>

definition keepsMeta :: "metadata \<Rightarrow> metadata \<Rightarrow> bool" where
  "keepsMeta m m' =
     (typ' m' = typ' m \<and> decodeFieldFunc m' = decodeFieldFunc m
      \<and> length (headers m') = length (headers m)
      \<and> (decodeFieldFunc m = None \<longrightarrow> m' = m))"

text \<open>
  What a call keeps of the cache: every entry stays, pointing to the same object, and
  every allocated object is kept in the sense of \<open>keepsMeta\<close>. \<open>frame\<close> is the same for
  the part of a call that does not reach the variable \<open>cache\<close>.
\<close>

definition keeps :: "world \<Rightarrow> world \<Rightarrow> bool" where
  "keeps w w' =
     ((\<forall>t a. cache w t = Some a \<longrightarrow> cache w' t = Some a)
      \<and> length (metas w) \<le> length (metas w')
      \<and> (\<forall>a<length (metas w). keepsMeta (metas w ! a) (metas w' ! a)))"

definition frame :: "world \<Rightarrow> world \<Rightarrow> bool" where
  "frame w w' =
     (cache w' = cache w \<and> length (metas w') = length (metas w)
      \<and> (\<forall>a<length (metas w). keepsMeta (metas w ! a) (metas w' ! a)))"

text \<open>
  The cache in every state of the process: an entry points to an allocated object of
  its type, with the method of the type and as many headers as \<open>getMetadata\<close> builds,
  and with exactly what \<open>getMetadata\<close> builds when the type has no method.
\<close>

definition cache_shape :: "MethodTable \<Rightarrow> world \<Rightarrow> bool" where
  "cache_shape methods w =
     (\<forall>t a. cache w t = Some a \<longrightarrow>
        a < length (metas w) \<and> typ' (metas w ! a) = t
        \<and> decodeFieldFunc (metas w ! a) = methods t
        \<and> length (headers (metas w ! a)) = length (headers (newMetadata methods t))
        \<and> (methods t = None \<longrightarrow> metas w ! a = newMetadata methods t))"

section \<open>Example types and values\<close>

text \<open>
  The record type of the specification's example, \<open>(Name string, Age int)\<close>; the type
  \<open>testRow\<close> of values\_test.go, with a field tagged \<open>-\<close>; and a type with an unexported
  field. \<open>noMethods\<close> is a program in which no type has a \<open>DecodeField\<close> method.
\<close>

definition person :: gotype where
  "person = TStruct ''person'' [StructField ''Name'' [] [] TString, StructField ''Age'' [] [] TInt]"

definition testRow :: gotype where
  "testRow =
     TStruct ''testRow''
       [StructField ''Name'' [] [] TString, StructField ''Other'' [] ''-'' TString,
        StructField ''Age'' [] [] TInt]"

definition account :: gotype where
  "account =
     TStruct ''account''
       [StructField ''secret'' ''sheets'' [] TString, StructField ''Owner'' [] ''owner'' TString]"

definition noMethods :: MethodTable where
  "noMethods = (\<lambda>t. None)"

text \<open>The state after the first call \<open>getMetadata(testRow)\<close> of a process.\<close>

definition world1 :: world where
  "world1 = \<lparr>heap = [], metas = [newMetadata noMethods testRow],
             cache = (\<lambda>t. if t = testRow then Some 0 else None)\<rparr>"

section \<open>The default assignment on the field values\<close>

text \<open>
  The test \<open>val.Type().AssignableTo(h.FieldType)\<close> of line 234, false for the zero Value
  (where the code panics before the test).
\<close>

definition CanAssign :: "goval \<Rightarrow> gotype \<Rightarrow> bool" where
  "CanAssign val T = (case TypeOf val of None \<Rightarrow> False | Some vt \<Rightarrow> AssignableTo vt T)"

text \<open>
  What the loop of \<open>decodeValue\<close> does to the field values \<open>vs\<close> of the struct when the
  type has no \<open>DecodeField\<close> method and nothing panics: cell after cell, header after
  header, \<open>Field(h.FieldIndex).Set(val)\<close> when the cell is assignable.
\<close>

fun bindDefault :: "Header list \<Rightarrow> goval list \<Rightarrow> goval list \<Rightarrow> goval list" where
  "bindDefault hs [] vs = vs"
| "bindDefault [] (val # row) vs = vs"
| "bindDefault (h # hs) (val # row) vs =
     bindDefault hs row (if CanAssign val (FieldType h) then vs[FieldIndex h := val] else vs)"

text \<open>
  A state in which the variable \<open>var result []person\<close> lives at address 0 and is still
  empty, nothing being cached yet: the start of the test of values\_test.go.
\<close>

definition people0 :: world where
  "people0 = \<lparr>heap = [VSlice person []], metas = [], cache = (\<lambda>t. None)\<rparr>"

text \<open>
  The type \<open>testRowFieldDecoder\<close> of values\_test.go, and a state in which the variable
  \<open>var row testRowFieldDecoder\<close> lives at address 0, nothing being cached yet.
\<close>

definition testRowFieldDecoder :: gotype where
  "testRowFieldDecoder = TStruct ''testRowFieldDecoder'' [StructField ''Name'' [] [] TString]"

definition row0 :: world where
  "row0 = \<lparr>heap = [Zero testRowFieldDecoder], metas = [], cache = (\<lambda>t. None)\<rparr>"

text \<open>
  A program in which \<open>testRowFieldDecoder\<close> has a method that writes to the header it is
  given and leaves the field to the default assignment:
  \<open>func (t *testRowFieldDecoder) DecodeField(h *Header, value interface{}) error
  { h.Name = "renamed"; return ErrOK }\<close>.
\<close>

definition DecodeField_rename :: FieldDecoder where
  "DecodeField_rename h val s = (Inr (Some ErrOK), s, h\<lparr>Name := ''renamed''\<rparr>)"

definition renameMethods :: MethodTable where
  "renameMethods = (\<lambda>t. if t = testRowFieldDecoder then Some DecodeField_rename else None)"

text \<open>
  A program in which \<open>testRowFieldDecoder\<close> has a method with the three outcomes (the
  method of values\_test.go is its first case):
  \<open>func (t *testRowFieldDecoder) DecodeField(h *Header, value interface{}) error {
  switch v := value.(type) {
  case string: t.Name = v + " custom value"; return nil
  case int: t.Name = "custom value"; return ErrOK }
  return fmt.Errorf("bad cell") }\<close>.
  \<open>setName x s\<close> is the assignment \<open>t.Name = x\<close> to the struct \<open>s\<close> behind \<open>t\<close>.
\<close>

definition setName :: "goval \<Rightarrow> goval \<Rightarrow> goval" where
  "setName x s = (case s of VStruct t fs \<Rightarrow> VStruct t (fs[0 := x]) | _ \<Rightarrow> s)"

definition DecodeField_example :: FieldDecoder where
  "DecodeField_example h val s =
     (case val of
        VString v \<Rightarrow> (Inr None, setName (VString (v @ '' custom value'')) s, h)
      | VInt v \<Rightarrow> (Inr (Some ErrOK), setName (VString ''custom value'') s, h)
      | _ \<Rightarrow> (Inr (Some (errorString ''bad cell'')), s, h))"

definition exampleMethods :: MethodTable where
  "exampleMethods = (\<lambda>t. if t = testRowFieldDecoder then Some DecodeField_example else None)"

text \<open>
  A state in which the variable \<open>var ptrRows []*testRowFieldDecoder\<close> lives at address 0
  and is still empty, nothing being cached yet.
\<close>

definition ptrRows0 :: world where
  "ptrRows0 = \<lparr>heap = [VSlice (TPtr testRowFieldDecoder) []], metas = [], cache = (\<lambda>t. None)\<rparr>"

section \<open>The records of a sequence of rows\<close>

text \<open>
  The records that the rows of a sequence bind to, one after the other, each from a new
  zero struct (\<open>reflect.New(typ)\<close>) and with the metadata as the rows before have left
  it: \<open>Some\<close> of the records and of the metadata after the last row when every row is
  bound without an error and without a panic, \<open>None\<close> otherwise.
\<close>

fun bindAll :: "gotype \<Rightarrow> metadata \<Rightarrow> goval list list \<Rightarrow> (goval list \<times> metadata) option" where
  "bindAll typ m [] = Some ([], m)"
| "bindAll typ m (row # rows) =
     (case decodeValue row (Some m) (Zero typ) of
        Inr (None, s, Some m') \<Rightarrow>
          (case bindAll typ m' rows of
             Some (recs, m'') \<Rightarrow> Some (s # recs, m'')
           | None \<Rightarrow> None)
      | _ \<Rightarrow> None)"

text \<open>
  The elements that the loop appends for the records \<open>recs\<close> allocated from the address
  \<open>a\<close> on: the pointer to the new struct when the element type is a pointer type
  (\<open>ptrElements\<close>), and the struct itself (\<open>newStructValue.Elem()\<close>) otherwise.
\<close>

fun elemsFrom :: "gotype \<Rightarrow> bool \<Rightarrow> addr \<Rightarrow> goval list \<Rightarrow> goval list" where
  "elemsFrom typ ptrElements a [] = []"
| "elemsFrom typ ptrElements a (r # rs) =
     (if ptrElements then VPtr typ (Some a) else r) # elemsFrom typ ptrElements (a + 1) rs"

section \<open>Transport and request framer (client.go)\<close>

text \<open>
  The body of a response is an \<open>io.ReadCloser\<close>: the body that the HTTP client hands
  out for the connection \<open>n\<close>, or a \<open>gzipReadCloser\<close> around a body (its field
  \<open>responseReader\<close>; its \<open>gzipReader\<close> holds no resource of its own). The state of a
  request/response cycle is the list of the connections whose body has been closed.
  \<open>Close\<close> of a \<open>gzipReadCloser\<close> closes the gzip reader and then the body it wraps.
\<close>

datatype ReadCloser = responseBody nat | gzipReadCloser ReadCloser

primrec Close :: "ReadCloser \<Rightarrow> nat list \<Rightarrow> nat list" where
  "Close (responseBody n) closed = closed @ [n]"
| "Close (gzipReadCloser responseReader) closed = Close responseReader closed"

text \<open>
  What \<open>Do\<close> and \<open>ReadJSON\<close> read of an \<open>http.Response\<close>. The HTTP client returns
  a response with a body that is not nil whenever it returns no error.
\<close>

record Response =
  Status :: int
  ContentEncoding :: string
  Body :: ReadCloser

text \<open>
  What the world outside the package answers during one cycle: the error of
  \<open>json.NewEncoder(buf).Encode(requestData)\<close> (\<open>None\<close> also when there is no request
  data), the error of \<open>http.NewRequest\<close>, the result of \<open>c.HTTPClient.Do\<close> (an error,
  with the body of the response when the response and its body are not nil, or a
  response), the error of the context when \<open>ctx.Done()\<close> is closed, the error of
  \<open>gzip.NewReader(response.Body)\<close>, the text that \<open>ioutil.ReadAll\<close> reads from the
  body (\<open>None\<close> when it fails), and the error of \<open>json.NewDecoder(resp.Body).Decode\<close>.
\<close>

record Net =
  Encode :: "string option"
  NewRequest :: "string option"
  RoundTrip :: "(string \<times> ReadCloser option) + Response"
  ctxErr :: "string option"
  gzipNewReader :: "string option"
  ReadAll :: "string option"
  Decode :: "string option"

text \<open>\<open>Do\<close> (lines 63 to 101): the response or the error, and the bodies closed so far.\<close>

definition Do :: "Net \<Rightarrow> nat list \<Rightarrow> (string + Response) \<times> nat list" where
  "Do net closed =
     (case NewRequest net of
        Some err \<Rightarrow> (Inl err, closed)
      | None \<Rightarrow>
          (case RoundTrip net of
             Inl (err, body) \<Rightarrow>
               (Inl (case ctxErr net of Some e \<Rightarrow> e | None \<Rightarrow> err),
                case body of Some b \<Rightarrow> Close b closed | None \<Rightarrow> closed)
           | Inr response \<Rightarrow>
               if ContentEncoding response = ''gzip'' then
                 (case gzipNewReader net of
                    Some err \<Rightarrow> (Inl err, closed)
                  | None \<Rightarrow>
                      (Inr (response\<lparr>Body := gzipReadCloser (Body response)\<rparr>), closed))
               else (Inr response, closed)))"

text \<open>
  The error that \<open>ReadJSON\<close> returns: an error passed on as it is, or the
  \<open>*ResourceError\<close> that \<open>newResourceError\<close> builds from the response.
\<close>

datatype readError = plainError string | resourceError ResourceError

definition newResourceError :: "Net \<Rightarrow> string \<Rightarrow> string \<Rightarrow> Response \<Rightarrow> ResourceError" where
  "newResourceError net method url resp =
     \<lparr>Method = method, URL = url, StatusCode = Status resp,
      Message = (case ReadAll net of Some b \<Rightarrow> b | None \<Rightarrow> ''unspecified'')\<rparr>"

text \<open>
  \<open>ReadJSON\<close> (lines 104 to 128): the returned error and the bodies closed when it
  returns. The deferred \<open>resp.Body.Close()\<close> runs last.
\<close>

definition ReadJSON :: "Net \<Rightarrow> string \<Rightarrow> string \<Rightarrow> nat list \<Rightarrow> readError option \<times> nat list" where
  "ReadJSON net method url closed =
     (case Encode net of
        Some err \<Rightarrow> (Some (plainError err), closed)
      | None \<Rightarrow>
          (case Do net closed of
             (Inl err, closed') \<Rightarrow> (Some (plainError err), closed')
           | (Inr resp, closed') \<Rightarrow>
               (if Status resp \<noteq> 200 then
                  Some (resourceError (newResourceError net method url resp))
                else map_option plainError (Decode net),
                Close (Body resp) closed')))"

text \<open>
  The connections whose body the cycle has received from the HTTP client, and the
  cycles in which \<open>gzip.NewReader\<close> is called and fails.
\<close>

primrec connections :: "ReadCloser \<Rightarrow> nat list" where
  "connections (responseBody n) = [n]"
| "connections (gzipReadCloser responseReader) = connections responseReader"

definition received :: "Net \<Rightarrow> nat list" where
  "received net =
     (case Encode net of
        Some err \<Rightarrow> []
      | None \<Rightarrow>
          (case NewRequest net of
             Some err \<Rightarrow> []
           | None \<Rightarrow>
               (case RoundTrip net of
                  Inl (err, None) \<Rightarrow> []
                | Inl (err, Some b) \<Rightarrow> connections b
                | Inr response \<Rightarrow> connections (Body response))))"

definition gzipFails :: "Net \<Rightarrow> bool" where
  "gzipFails net =
     (Encode net = None \<and> NewRequest net = None
      \<and> (case RoundTrip net of
            Inl e \<Rightarrow> False
          | Inr response \<Rightarrow> ContentEncoding response = ''gzip'' \<and> gzipNewReader net \<noteq> None))"

text \<open>
  A cycle in which the server answers 200 with the header \<open>Content-Encoding: gzip\<close> and
  a body that does not start with a gzip header.
\<close>

definition badGzip :: Net where
  "badGzip =
     \<lparr>Encode = None, NewRequest = None,
      RoundTrip = Inr \<lparr>Status = 200, ContentEncoding = ''gzip'', Body = responseBody 7\<rparr>,
      ctxErr = None, gzipNewReader = Some ''gzip: invalid header'',
      ReadAll = Some ''not gzip'', Decode = None\<rparr>"

section \<open>Properties of the error model\<close>

text \<open>
  C2. \<open>IsResourceError e target\<close> (and the method \<open>Is\<close>, which calls it) is the matching
  predicate: \<open>target\<close> is the pattern, whose zero-valued fields match anything, and \<open>e\<close>
  is the candidate. It returns true exactly when both are absent, or both point to a
  \<open>ResourceError\<close> and every field of the pattern (method, URL, status code, message)
  equals the candidate's field or is the zero value (empty string, status code at most
  0). With the candidate \<open>{GET, x, 404, m}\<close>, the pattern \<open>{status: 404}\<close> matches and
  the pattern \<open>{method: POST, status: 404}\<close> does not.
\<close>

theorem IsResourceError_matches:
  "(IsResourceError st candidate pattern = Inr True) =
     ((candidate = None \<and> pattern = None)
      \<or> (\<exists>c p. candidate = Some c \<and> pattern = Some (PtrResourceError (Some p))
            \<and> c < length st \<and> p < length st
            \<and> (Method (st ! p) = Method (st ! c) \<or> Method (st ! p) = [])
            \<and> (URL (st ! p) = URL (st ! c) \<or> URL (st ! p) = [])
            \<and> (StatusCode (st ! p) = StatusCode (st ! c) \<or> StatusCode (st ! p) \<le> 0)
            \<and> (Message (st ! p) = Message (st ! c) \<or> Message (st ! p) = [])))
   \<and> ResourceError_Is st candidate pattern = IsResourceError st candidate pattern
   \<and> IsResourceError example_errors (Some 0) (Some (PtrResourceError (Some 1))) = Inr True
   \<and> IsResourceError example_errors (Some 0) (Some (PtrResourceError (Some 2))) = Inr False"
proof (intro conjI)
  show "(IsResourceError st candidate pattern = Inr True) =
     ((candidate = None \<and> pattern = None)
      \<or> (\<exists>c p. candidate = Some c \<and> pattern = Some (PtrResourceError (Some p))
            \<and> c < length st \<and> p < length st
            \<and> (Method (st ! p) = Method (st ! c) \<or> Method (st ! p) = [])
            \<and> (URL (st ! p) = URL (st ! c) \<or> URL (st ! p) = [])
            \<and> (StatusCode (st ! p) = StatusCode (st ! c) \<or> StatusCode (st ! p) \<le> 0)
            \<and> (Message (st ! p) = Message (st ! c) \<or> Message (st ! p) = [])))"
    by (cases pattern; cases candidate)
       (auto simp: IsResourceError_def deref_def split: error.splits option.splits)
  show "ResourceError_Is st candidate pattern = IsResourceError st candidate pattern"
    by (simp add: ResourceError_Is_def)
  show "IsResourceError example_errors (Some 0) (Some (PtrResourceError (Some 1))) = Inr True"
    by (simp add: IsResourceError_def deref_def example_errors_def)
  show "IsResourceError example_errors (Some 0) (Some (PtrResourceError (Some 2))) = Inr False"
    by (simp add: IsResourceError_def deref_def example_errors_def)
qed

theorem IsResourceError_matches_witness:
  "IsResourceError example_errors (Some 0) (Some (PtrResourceError (Some 1))) = Inr True
   \<and> IsResourceError example_errors (Some 1) (Some (PtrResourceError (Some 0))) \<noteq> Inr True
   \<and> IsResourceError example_errors None None = Inr True"
  using IsResourceError_matches [of example_errors "Some 0" "Some (PtrResourceError (Some 1))"]
        IsResourceError_matches [of example_errors "Some 1" "Some (PtrResourceError (Some 0))"]
        IsResourceError_matches [of example_errors None None]
  by (simp add: example_errors_def)

text \<open>
  C10. \<open>IsStatusError statusCode target\<close> returns \<open>(nil, false)\<close> when \<open>target\<close> is nil or
  is an error of another type than \<open>*ResourceError\<close>. When \<open>target\<close> is a pointer to a
  \<open>ResourceError\<close> it returns that same pointer, which is not nil, with a boolean that is
  true exactly when the status code of the error is \<open>statusCode\<close>: the pointer is
  returned also when the boolean is false.
\<close>

theorem IsStatusError_cases:
  "IsStatusError st statusCode None = Inr (None, False)
   \<and> IsStatusError st statusCode (Some ErrOK) = Inr (None, False)
   \<and> IsStatusError st statusCode (Some (errorString s)) = Inr (None, False)
   \<and> (a < length st \<longrightarrow>
        IsStatusError st statusCode (Some (PtrResourceError (Some a)))
          = Inr (Some a, StatusCode (st ! a) = statusCode))"
  by (simp add: IsStatusError_def deref_def)

theorem IsStatusError_cases_witness:
  "IsStatusError example_errors 404 (Some (PtrResourceError (Some 0))) = Inr (Some 0, True)
   \<and> IsStatusError example_errors 500 (Some (PtrResourceError (Some 0))) = Inr (Some 0, False)"
  using IsStatusError_cases [where st = example_errors and statusCode = 404 and a = 0]
        IsStatusError_cases [where st = example_errors and statusCode = 500 and a = 0]
  by (simp add: example_errors_def)

section \<open>Properties of the metadata reflector\<close>

lemma fieldsLoop_eq:
  "fieldsLoop i fs hs =
     hs @ map (\<lambda>(i, f). \<lparr>Name = (if f_Tag f = [] then f_Name f else f_Tag f), FieldIndex = i,
                      FieldName = f_Name f, FieldType = f_Type f\<rparr>)
         (filter (\<lambda>(i, f). f_PkgPath f = [] \<and> f_Tag f \<noteq> ''-'')
                 (zip [i..<i + length fs] fs))"
proof (induction fs arbitrary: i hs)
  case Nil
  then show ?case by simp
next
  case (Cons f fs)
  have "[i..<i + length (f # fs)] = i # [Suc i..<i + length (f # fs)]"
    by (rule upt_conv_Cons) simp
  then have upt: "[i..<i + length (f # fs)] = i # [i + 1..<(i + 1) + length fs]"
    by simp
  show ?case
    unfolding upt by (simp add: Cons.IH)
qed

lemma headers_newMetadata: "headers (newMetadata methods typ) = describe typ"
  by (simp add: newMetadata_def describe_def fieldsLoop_eq)

lemma getMetadata_ok:
  assumes "cache_ok methods w" "Kind_of typ = KStruct"
  shows "\<exists>m w'. getMetadata methods typ w = Inr (m, w') \<and> m < length (metas w')
           \<and> metas w' ! m = newMetadata methods typ \<and> cache w' typ = Some m
           \<and> cache_ok methods w' \<and> heap w' = heap w"
proof (cases "cache w typ")
  case None
  have "cache_ok methods (w\<lparr>metas := metas w @ [newMetadata methods typ],
                             cache := (cache w)(typ := Some (length (metas w)))\<rparr>)"
    using assms(1) unfolding cache_ok_def
    by (auto simp: nth_append less_Suc_eq)
  with None assms(2) show ?thesis
    by (simp add: getMetadata_def publish_def Let_def)
next
  case (Some m)
  with assms(1) show ?thesis
    by (simp add: getMetadata_def cache_ok_def)
qed

lemma zip_upt_nth: "zip [0..<length xs] xs = map (\<lambda>i. (i, xs ! i)) [0..<length xs]"
  by (rule nth_equalityI) simp_all

lemma describe_by_index:
  "describe typ =
     map (\<lambda>i. \<lparr>Name = (if f_Tag (Fields typ ! i) = [] then f_Name (Fields typ ! i)
                         else f_Tag (Fields typ ! i)),
                 FieldIndex = i, FieldName = f_Name (Fields typ ! i),
                 FieldType = f_Type (Fields typ ! i)\<rparr>)
         (filter (\<lambda>i. f_PkgPath (Fields typ ! i) = [] \<and> f_Tag (Fields typ ! i) \<noteq> ''-'')
                 [0..<length (Fields typ)])"
  unfolding describe_def zip_upt_nth
  by (simp add: filter_map comp_def)

text \<open>
  C5. For every struct type, \<open>getMetadata\<close> returns the descriptors in the declaration
  order of the fields, one for each exported field whose tag is not \<open>-\<close>: a field that
  is not exported or that is tagged \<open>-\<close> is left out wherever it stands. The name of a
  descriptor is the tag when it is not empty, and the field's own name otherwise. For a
  type with no tags and only exported fields there is one descriptor per field, in
  declaration order, named as the field.
\<close>

theorem getMetadata_describe:
  assumes "cache_ok methods w" and "Kind_of typ = KStruct"
  shows "\<exists>m w'. getMetadata methods typ w = Inr (m, w') \<and> m < length (metas w')
           \<and> headers (metas w' ! m) = describe typ
           \<and> map FieldIndex (describe typ) =
               filter (\<lambda>i. f_PkgPath (Fields typ ! i) = [] \<and> f_Tag (Fields typ ! i) \<noteq> ''-'')
                      [0..<length (Fields typ)]
           \<and> (\<forall>h \<in> set (describe typ).
                 Name h = (if f_Tag (Fields typ ! FieldIndex h) = []
                           then f_Name (Fields typ ! FieldIndex h)
                           else f_Tag (Fields typ ! FieldIndex h))
                 \<and> FieldName h = f_Name (Fields typ ! FieldIndex h)
                 \<and> FieldType h = f_Type (Fields typ ! FieldIndex h))
           \<and> ((\<forall>f \<in> set (Fields typ). f_PkgPath f = [] \<and> f_Tag f = []) \<longrightarrow>
                 map Name (describe typ) = map f_Name (Fields typ)
                 \<and> map FieldIndex (describe typ) = [0..<length (Fields typ)])"
proof -
  obtain m w' where call: "getMetadata methods typ w = Inr (m, w')" "m < length (metas w')"
      "metas w' ! m = newMetadata methods typ"
    using getMetadata_ok [OF assms] by blast
  have idx: "map FieldIndex (describe typ) =
      filter (\<lambda>i. f_PkgPath (Fields typ ! i) = [] \<and> f_Tag (Fields typ ! i) \<noteq> ''-'')
             [0..<length (Fields typ)]"
    unfolding describe_by_index by (simp add: comp_def)
  have each: "\<forall>h \<in> set (describe typ).
      Name h = (if f_Tag (Fields typ ! FieldIndex h) = []
                then f_Name (Fields typ ! FieldIndex h)
                else f_Tag (Fields typ ! FieldIndex h))
      \<and> FieldName h = f_Name (Fields typ ! FieldIndex h)
      \<and> FieldType h = f_Type (Fields typ ! FieldIndex h)"
    unfolding describe_by_index by auto
  have plain: "map Name (describe typ) = map f_Name (Fields typ)
      \<and> map FieldIndex (describe typ) = [0..<length (Fields typ)]"
    if all: "\<forall>f \<in> set (Fields typ). f_PkgPath f = [] \<and> f_Tag f = []"
  proof -
    have keep: "filter (\<lambda>i. f_PkgPath (Fields typ ! i) = [] \<and> f_Tag (Fields typ ! i) \<noteq> ''-'')
                  [0..<length (Fields typ)] = [0..<length (Fields typ)]"
      using all by (auto simp: filter_id_conv)
    have "map Name (describe typ) = map (\<lambda>i. f_Name (Fields typ ! i)) [0..<length (Fields typ)]"
      unfolding describe_by_index keep using all by (simp add: comp_def)
    also have "\<dots> = map f_Name (Fields typ)"
      by (rule nth_equalityI) simp_all
    finally show ?thesis using idx keep by simp
  qed
  show ?thesis
    using call idx each plain by (auto simp: headers_newMetadata)
qed

lemma cache_ok_world0: "cache_ok methods world0"
  by (simp add: cache_ok_def world0_def)

theorem getMetadata_describe_witness:
  "cache_ok noMethods world0 \<and> Kind_of testRow = KStruct
   \<and> (\<exists>m w'. getMetadata noMethods testRow world0 = Inr (m, w') \<and> m < length (metas w')
        \<and> headers (metas w' ! m) =
            [\<lparr>Name = ''Name'', FieldIndex = 0, FieldName = ''Name'', FieldType = TString\<rparr>,
             \<lparr>Name = ''Age'', FieldIndex = 2, FieldName = ''Age'', FieldType = TInt\<rparr>])
   \<and> (\<exists>m w'. getMetadata noMethods account world0 = Inr (m, w') \<and> m < length (metas w')
        \<and> headers (metas w' ! m) =
            [\<lparr>Name = ''owner'', FieldIndex = 1, FieldName = ''Owner'', FieldType = TString\<rparr>])"
proof -
  have ok: "cache_ok noMethods world0" by (rule cache_ok_world0)
  have k1: "Kind_of testRow = KStruct" by (simp add: testRow_def)
  have k2: "Kind_of account = KStruct" by (simp add: account_def)
  have d1: "describe testRow =
      [\<lparr>Name = ''Name'', FieldIndex = 0, FieldName = ''Name'', FieldType = TString\<rparr>,
       \<lparr>Name = ''Age'', FieldIndex = 2, FieldName = ''Age'', FieldType = TInt\<rparr>]"
    by (simp add: describe_def testRow_def upt_rec)
  have d2: "describe account =
      [\<lparr>Name = ''owner'', FieldIndex = 1, FieldName = ''Owner'', FieldType = TString\<rparr>]"
    by (simp add: describe_def account_def upt_rec)
  show ?thesis
    using ok k1 getMetadata_describe [OF ok k1] getMetadata_describe [OF ok k2]
    unfolding d1 d2 by blast
qed

section \<open>Properties of the binding engine\<close>

text \<open>
  C7. For every destination value, also one that is not a pointer or that points to a
  type that cannot be bound, \<open>DecodeValueRange\<close> called with no matrix, or with a first
  matrix that has no row, returns no error and leaves the state, the destination
  included, as it was: the checks of the destination are not reached.
\<close>

theorem DecodeValueRange_no_data:
  assumes "rangeValues = [] \<or> Values (rangeValues ! 0) = []"
  shows "DecodeValueRange methods dest rangeValues w = Inr (None, w)"
  using assms by (auto simp: DecodeValueRange_def)

theorem DecodeValueRange_no_data_witness:
  "DecodeValueRange noMethods (VInt 5) [] world0 = Inr (None, world0)
   \<and> DecodeValueRange noMethods (VPtr TInt None)
        [\<lparr>Range' = ''A1:B2'', MajorDimension = ''ROWS'', Values = []\<rparr>,
         \<lparr>Range' = ''C1:D2'', MajorDimension = ''ROWS'', Values = [[VString ''x'']]\<rparr>] world0
       = Inr (None, world0)
   \<and> DecodeValueRange noMethods (VInt 5)
        [\<lparr>Range' = ''C1:D2'', MajorDimension = ''ROWS'', Values = [[VString ''x'']]\<rparr>] world0
       = Inr (Some (errorString ''not a pointer''), world0)"
proof -
  have a: "([] :: ValueRange list) = [] \<or> Values ([] ! 0) = []" by simp
  have b: "[\<lparr>Range' = ''A1:B2'', MajorDimension = ''ROWS'', Values = []\<rparr>,
         \<lparr>Range' = ''C1:D2'', MajorDimension = ''ROWS'', Values = [[VString ''x'']]\<rparr>] = []
      \<or> Values ([\<lparr>Range' = ''A1:B2'', MajorDimension = ''ROWS'', Values = []\<rparr>,
         \<lparr>Range' = ''C1:D2'', MajorDimension = ''ROWS'', Values = [[VString ''x'']]\<rparr>] ! 0) = []"
    by simp
  have c: "DecodeValueRange noMethods (VInt 5)
        [\<lparr>Range' = ''C1:D2'', MajorDimension = ''ROWS'', Values = [[VString ''x'']]\<rparr>] world0
       = Inr (Some (errorString ''not a pointer''), world0)"
    by (simp add: DecodeValueRange_def)
  show ?thesis
    using DecodeValueRange_no_data [OF a, of noMethods "VInt 5" world0]
          DecodeValueRange_no_data [OF b, of noMethods "VPtr TInt None" world0] c
    by simp
qed

section \<open>What the calls keep of the cache\<close>

lemma keepsMeta_refl: "keepsMeta m m"
  by (simp add: keepsMeta_def)

lemma keepsMeta_trans: "keepsMeta m m1 \<Longrightarrow> keepsMeta m1 m2 \<Longrightarrow> keepsMeta m m2"
  by (auto simp: keepsMeta_def)

lemma decodeCell_keepsMeta: "keepsMeta meta (snd (stateAfter (decodeCell meta i val s)))"
  by (auto simp: decodeCell_def stateAfter_def Let_def keepsMeta_def
           split: option.splits sum.splits prod.splits)

lemma decodeLoop_keepsMeta: "keepsMeta meta (snd (stateAfter (decodeLoop meta i row s)))"
proof (induction row arbitrary: meta i s)
  case Nil
  then show ?case by (simp add: stateAfter_def keepsMeta_refl)
next
  case (Cons val row)
  have c: "keepsMeta meta (snd (stateAfter (decodeCell meta i val s)))"
    by (rule decodeCell_keepsMeta)
  show ?case
  proof (cases "decodeCell meta i val s")
    case (Inl e)
    then show ?thesis using c by simp
  next
    case (Inr r)
    obtain err s' meta' where r: "r = (err, s', meta')" by (cases r) auto
    have k: "keepsMeta meta meta'" using c Inr r by (simp add: stateAfter_def)
    show ?thesis
    proof (cases err)
      case None
      then show ?thesis
        using Inr r keepsMeta_trans [OF k Cons.IH [of meta' "i + 1" s']] by simp
    next
      case (Some e)
      then show ?thesis using Inr r k by (simp add: stateAfter_def)
    qed
  qed
qed

lemma decodeValue_keepsMeta:
  "\<exists>s' m'. stateAfter (decodeValue row (Some m) s) = (s', Some m') \<and> keepsMeta m m'"
proof (cases "length row = 0 \<or> length (headers m) = 0")
  case True
  then show ?thesis by (auto simp: decodeValue_def stateAfter_def keepsMeta_refl)
next
  case False
  have "keepsMeta m (snd (stateAfter (decodeLoop m 0 row s)))" by (rule decodeLoop_keepsMeta)
  then show ?thesis using False
    by (auto simp: decodeValue_def stateAfter_def split: sum.splits prod.splits)
qed

lemma frame_refl: "frame w w"
  by (simp add: frame_def keepsMeta_refl)

lemma frame_trans: "frame w w1 \<Longrightarrow> frame w1 w2 \<Longrightarrow> frame w w2"
  unfolding frame_def by (auto intro: keepsMeta_trans)

lemma frame_heap: "metas w' = metas w \<Longrightarrow> cache w' = cache w \<Longrightarrow> frame w w'"
  by (simp add: frame_def keepsMeta_refl)

lemma decodeValueAt_frame: "frame w (stateAfter (decodeValueAt row meta a w))"
proof (cases "length (heap w) \<le> a \<or> length (metas w) \<le> meta")
  case True
  then show ?thesis by (simp add: decodeValueAt_def stateAfter_def frame_refl)
next
  case False
  obtain s' m' where st: "stateAfter (decodeValue row (Some (metas w ! meta)) (heap w ! a)) = (s', Some m')"
    and k: "keepsMeta (metas w ! meta) m'"
    using decodeValue_keepsMeta by blast
  have "stateAfter (decodeValueAt row meta a w) = writeBack meta a (s', Some m') w"
    using False st
    by (auto simp: decodeValueAt_def stateAfter_def split: sum.splits prod.splits)
  then show ?thesis using k False
    by (auto simp: writeBack_def frame_def nth_list_update keepsMeta_refl)
qed

lemma AppendSet_frame: "AppendSet d x w = Inr w' \<Longrightarrow> frame w w'"
  by (auto simp: AppendSet_def split: if_splits goval.splits intro: frame_heap)

lemma rowsLoop_frame: "frame w (stateAfter (rowsLoop typ meta ptr d rows w))"
proof (induction rows arbitrary: w)
  case Nil
  then show ?case by (simp add: stateAfter_def frame_refl)
next
  case (Cons row rows)
  let ?a = "length (heap w)"
  let ?w1 = "w\<lparr>heap := heap w @ [Zero typ]\<rparr>"
  have f1: "frame w ?w1" by (rule frame_heap) simp_all
  have f2: "frame ?w1 (stateAfter (decodeValueAt row meta ?a ?w1))" by (rule decodeValueAt_frame)
  show ?case
  proof (cases "decodeValueAt row meta ?a ?w1")
    case (Inl e)
    then show ?thesis using frame_trans [OF f1 f2] by (simp add: New_def stateAfter_def)
  next
    case (Inr r)
    obtain err w2 where r: "r = (err, w2)" by (cases r) auto
    have f12: "frame w w2" using frame_trans [OF f1 f2] Inr r by (simp add: stateAfter_def)
    show ?thesis
    proof (cases err)
      case (Some e)
      then show ?thesis using Inr r f12 by (simp add: New_def stateAfter_def)
    next
      case None
      let ?x = "if ptr then VPtr typ (Some ?a) else heap w2 ! ?a"
      show ?thesis
      proof (cases "AppendSet d ?x w2")
        case (Inl p)
        then show ?thesis using Inr r None f12 by (simp add: New_def stateAfter_def)
      next
        case (Inr w3)
        have "frame w w3" using frame_trans [OF f12 AppendSet_frame [OF Inr]] .
        then have "frame w (stateAfter (rowsLoop typ meta ptr d rows w3))"
          using Cons.IH [of w3] frame_trans by blast
        then show ?thesis using \<open>decodeValueAt row meta ?a ?w1 = Inr r\<close> r None Inr
          by (simp add: New_def)
      qed
    qed
  qed
qed

lemma rangesLoop_frame: "frame w (stateAfter (rangesLoop typ meta ptr d rvs w))"
proof (induction rvs arbitrary: w)
  case Nil
  then show ?case by (simp add: stateAfter_def frame_refl)
next
  case (Cons rv rvs)
  have f: "frame w (stateAfter (rowsLoop typ meta ptr d (Values rv) w))" by (rule rowsLoop_frame)
  show ?case
  proof (cases "rowsLoop typ meta ptr d (Values rv) w")
    case (Inl e)
    then show ?thesis using f by simp
  next
    case (Inr r)
    obtain err w' where r: "r = (err, w')" by (cases r) auto
    have fw: "frame w w'" using f Inr r by (simp add: stateAfter_def)
    show ?thesis
    proof (cases err)
      case None
      then show ?thesis using Inr r frame_trans [OF fw Cons.IH [of w']] by simp
    next
      case (Some e)
      then show ?thesis using Inr r fw by (simp add: stateAfter_def)
    qed
  qed
qed

lemma keeps_refl: "keeps w w"
  by (simp add: keeps_def keepsMeta_refl)

lemma keeps_trans: "keeps w w1 \<Longrightarrow> keeps w1 w2 \<Longrightarrow> keeps w w2"
  unfolding keeps_def by (auto intro: keepsMeta_trans)

lemma frame_keeps: "frame w w' \<Longrightarrow> keeps w w'"
  by (simp add: frame_def keeps_def)

lemma publish_keeps: "cache w typ = None \<Longrightarrow> keeps w (snd (publish methods typ w))"
  by (auto simp: publish_def keeps_def Let_def nth_append keepsMeta_refl)

lemma getMetadata_keeps: "getMetadata methods typ w = Inr (m, w') \<Longrightarrow> keeps w w'"
  using publish_keeps [of w "typ" methods]
  by (auto simp: getMetadata_def keeps_refl split: option.splits if_splits)

lemma cache_shape_frame: "cache_shape methods w \<Longrightarrow> frame w w' \<Longrightarrow> cache_shape methods w'"
  unfolding cache_shape_def frame_def keepsMeta_def by (auto; metis)

lemma cache_shape_publish:
  "cache_shape methods w \<Longrightarrow> cache_shape methods (snd (publish methods typ w))"
proof -
  assume ok: "cache_shape methods w"
  let ?w' = "snd (publish methods typ w)"
  have m: "metas ?w' = metas w @ [newMetadata methods typ]"
    and c: "cache ?w' = (cache w)(typ := Some (length (metas w)))"
    by (simp_all add: publish_def Let_def)
  show "cache_shape methods ?w'"
    unfolding cache_shape_def
  proof (intro allI impI)
    fix t a
    assume e: "cache ?w' t = Some a"
    show "a < length (metas ?w') \<and> typ' (metas ?w' ! a) = t
        \<and> decodeFieldFunc (metas ?w' ! a) = methods t
        \<and> length (headers (metas ?w' ! a)) = length (headers (newMetadata methods t))
        \<and> (methods t = None \<longrightarrow> metas ?w' ! a = newMetadata methods t)"
    proof (cases "t = typ")
      case True
      then have "a = length (metas w)" using e c by simp
      then show ?thesis using True m by (simp add: newMetadata_def)
    next
      case False
      then have old: "cache w t = Some a" using e c by simp
      from ok old have props: "a < length (metas w) \<and> typ' (metas w ! a) = t
        \<and> decodeFieldFunc (metas w ! a) = methods t
        \<and> length (headers (metas w ! a)) = length (headers (newMetadata methods t))
        \<and> (methods t = None \<longrightarrow> metas w ! a = newMetadata methods t)"
        unfolding cache_shape_def by blast
      then show ?thesis using m by (simp add: nth_append)
    qed
  qed
qed

lemma getMetadata_shape:
  "cache_shape methods w \<Longrightarrow> getMetadata methods typ w = Inr (m, w') \<Longrightarrow> cache_shape methods w'"
  using cache_shape_publish [of methods w "typ"]
  by (auto simp: getMetadata_def split: option.splits if_splits)

lemma decodeSlice_keeps: "keeps w (stateAfter (decodeSlice methods typ ptr d rvs w))"
proof (cases "getMetadata methods typ w")
  case (Inl p)
  then show ?thesis by (simp add: decodeSlice_def stateAfter_def keeps_refl)
next
  case (Inr r)
  obtain m w1 where r: "r = (m, w1)" by (cases r) auto
  have "keeps w w1" using Inr r by (auto dest: getMetadata_keeps)
  moreover have "keeps w1 (stateAfter (rangesLoop typ m ptr d rvs w1))"
    by (rule frame_keeps [OF rangesLoop_frame])
  ultimately show ?thesis using Inr r by (auto simp: decodeSlice_def intro: keeps_trans)
qed

lemma decodeSlice_shape:
  "cache_shape methods w \<Longrightarrow> cache_shape methods (stateAfter (decodeSlice methods typ ptr d rvs w))"
proof (cases "getMetadata methods typ w")
  case (Inl p)
  assume "cache_shape methods w"
  with Inl show ?thesis by (simp add: decodeSlice_def stateAfter_def)
next
  case (Inr r)
  assume ok: "cache_shape methods w"
  obtain m w1 where r: "r = (m, w1)" by (cases r) auto
  have "cache_shape methods w1" using Inr r ok by (auto dest: getMetadata_shape)
  then have "cache_shape methods (stateAfter (rangesLoop typ m ptr d rvs w1))"
    by (rule cache_shape_frame [OF _ rangesLoop_frame])
  then show ?thesis using Inr r by (simp add: decodeSlice_def)
qed

lemma decodeStruct_keeps: "keeps w (stateAfter (decodeStruct methods typ d rvs w))"
proof (cases "getMetadata methods typ w")
  case (Inl p)
  then show ?thesis by (simp add: decodeStruct_def stateAfter_def keeps_refl)
next
  case (Inr r)
  obtain m w1 where r: "r = (m, w1)" by (cases r) auto
  have "keeps w w1" using Inr r by (auto dest: getMetadata_keeps)
  moreover have "keeps w1 (stateAfter (decodeValueAt (Values (rvs ! 0) ! 0) m d w1))"
    by (rule frame_keeps [OF decodeValueAt_frame])
  ultimately show ?thesis using Inr r by (auto simp: decodeStruct_def intro: keeps_trans)
qed

lemma decodeStruct_shape:
  "cache_shape methods w \<Longrightarrow> cache_shape methods (stateAfter (decodeStruct methods typ d rvs w))"
proof (cases "getMetadata methods typ w")
  case (Inl p)
  assume "cache_shape methods w"
  with Inl show ?thesis by (simp add: decodeStruct_def stateAfter_def)
next
  case (Inr r)
  assume ok: "cache_shape methods w"
  obtain m w1 where r: "r = (m, w1)" by (cases r) auto
  have "cache_shape methods w1" using Inr r ok by (auto dest: getMetadata_shape)
  then have "cache_shape methods (stateAfter (decodeValueAt (Values (rvs ! 0) ! 0) m d w1))"
    by (rule cache_shape_frame [OF _ decodeValueAt_frame])
  then show ?thesis using Inr r by (simp add: decodeStruct_def)
qed

lemma DecodeValueRange_keeps: "keeps w (stateAfter (DecodeValueRange methods dest rvs w))"
  unfolding DecodeValueRange_def
  using decodeSlice_keeps decodeStruct_keeps
  by (auto simp: stateAfter_def keeps_refl split: goval.splits option.splits)

lemma DecodeValueRange_shape:
  "cache_shape methods w \<Longrightarrow> cache_shape methods (stateAfter (DecodeValueRange methods dest rvs w))"
  unfolding DecodeValueRange_def
  using decodeSlice_shape decodeStruct_shape
  by (auto simp: stateAfter_def split: goval.splits option.splits)

lemma step_keeps: "keeps w (step methods c w)"
proof (cases c)
  case (CallGetMetadata t)
  then show ?thesis
    by (auto simp: step_def keeps_refl split: sum.splits dest: getMetadata_keeps)
next
  case (CallDecodeValueRange dest rvs)
  then show ?thesis using DecodeValueRange_keeps by (simp add: step_def)
next
  case (CallerCode hp)
  have "frame w (w\<lparr>heap := hp\<rparr>)" by (rule frame_heap) simp_all
  then show ?thesis using CallerCode by (simp add: step_def frame_keeps)
qed

lemma step_shape:
  assumes "cache_shape methods w"
  shows "cache_shape methods (step methods c w)"
proof (cases c)
  case (CallGetMetadata t)
  then show ?thesis using assms
    by (auto simp: step_def split: sum.splits dest: getMetadata_shape)
next
  case (CallDecodeValueRange dest rvs)
  then show ?thesis using DecodeValueRange_shape [OF assms] by (simp add: step_def)
next
  case (CallerCode hp)
  have "frame w (w\<lparr>heap := hp\<rparr>)" by (rule frame_heap) simp_all
  then show ?thesis using CallerCode cache_shape_frame [OF assms] by (simp add: step_def)
qed

lemma run_keeps: "keeps w (run methods cs w)"
proof (induction cs arbitrary: w)
  case Nil
  then show ?case by (simp add: keeps_refl)
next
  case (Cons c cs)
  show ?case using keeps_trans [OF step_keeps Cons.IH] by simp
qed

lemma run_shape: "cache_shape methods w \<Longrightarrow> cache_shape methods (run methods cs w)"
proof (induction cs arbitrary: w)
  case Nil
  then show ?case by simp
next
  case (Cons c cs)
  then show ?case using step_shape by simp
qed

lemma cache_shape_empty: "cache w = (\<lambda>t. None) \<Longrightarrow> cache_shape methods w"
  by (simp add: cache_shape_def)

text \<open>
  C8, for calls that do not overlap in time. In a process that starts with an empty
  cache, a call of \<open>getMetadata\<close> on a struct type that returns the pointer \<open>m\<close> leaves a
  state in which a second call returns the same pointer and writes nothing: the
  metadata is not computed again. Whatever the process does afterwards (calls of
  \<open>getMetadata\<close> and \<open>DecodeValueRange\<close> that return or panic, and the caller's own
  code), the entry of the cache keeps pointing to that object, and the object keeps its
  type, its detected decoder and the number of its descriptors. For a type without a
  \<open>DecodeField\<close> method the object keeps exactly what \<open>getMetadata\<close> built. A
  \<open>DecodeField\<close> method is handed the pointers to the cached descriptors, and what it
  writes there stays in the cache.
\<close>

theorem getMetadata_cached:
  assumes "cache w0 = (\<lambda>t. None)"
    and "getMetadata methods typ (run methods cs0 w0) = Inr (m, w1)"
  shows "getMetadata methods typ w1 = Inr (m, w1)
       \<and> m < length (metas w1) \<and> typ' (metas w1 ! m) = typ
       \<and> decodeFieldFunc (metas w1 ! m) = methods typ
       \<and> length (headers (metas w1 ! m)) = length (describe typ)
       \<and> (methods typ = None \<longrightarrow> metas w1 ! m = newMetadata methods typ)
       \<and> (\<forall>cs. getMetadata methods typ (run methods cs w1) = Inr (m, run methods cs w1)
              \<and> cache (run methods cs w1) typ = Some m
              \<and> typ' (metas (run methods cs w1) ! m) = typ
              \<and> decodeFieldFunc (metas (run methods cs w1) ! m) = methods typ
              \<and> length (headers (metas (run methods cs w1) ! m)) = length (describe typ)
              \<and> (methods typ = None \<longrightarrow>
                    metas (run methods cs w1) ! m = newMetadata methods typ))"
proof -
  have hit: "cache w1 typ = Some m"
    using assms(2)
    by (auto simp: getMetadata_def publish_def Let_def split: option.splits if_splits)
  have "cache_shape methods (run methods cs0 w0)"
    using run_shape [OF cache_shape_empty [OF assms(1)]] .
  then have ok1: "cache_shape methods w1"
    using assms(2) by (rule getMetadata_shape)
  have p: "m < length (metas w1)" "typ' (metas w1 ! m) = typ"
      "decodeFieldFunc (metas w1 ! m) = methods typ"
      "length (headers (metas w1 ! m)) = length (describe typ)"
      "methods typ = None \<longrightarrow> metas w1 ! m = newMetadata methods typ"
    using ok1 hit unfolding cache_shape_def headers_newMetadata by blast+
  have later: "getMetadata methods typ (run methods cs w1) = Inr (m, run methods cs w1)
              \<and> cache (run methods cs w1) typ = Some m
              \<and> typ' (metas (run methods cs w1) ! m) = typ
              \<and> decodeFieldFunc (metas (run methods cs w1) ! m) = methods typ
              \<and> length (headers (metas (run methods cs w1) ! m)) = length (describe typ)
              \<and> (methods typ = None \<longrightarrow>
                    metas (run methods cs w1) ! m = newMetadata methods typ)" for cs
  proof -
    have k: "keeps w1 (run methods cs w1)" by (rule run_keeps)
    then have c: "cache (run methods cs w1) typ = Some m"
      using hit by (simp add: keeps_def)
    have "keepsMeta (metas w1 ! m) (metas (run methods cs w1) ! m)"
      using k p(1) by (simp add: keeps_def)
    then show ?thesis using c p by (auto simp: getMetadata_def keepsMeta_def)
  qed
  show ?thesis
    using hit p later by (simp add: getMetadata_def)
qed

theorem getMetadata_cached_witness:
  "cache world0 = (\<lambda>t. None)
   \<and> getMetadata noMethods testRow (run noMethods [] world0) = Inr (0, world1)
   \<and> getMetadata noMethods testRow world1 = Inr (0, world1)
   \<and> cache (run noMethods
        [CallerCode [VSlice person []],
         CallDecodeValueRange (VPtr (TSlice person) (Some 0))
           [\<lparr>Range' = ''A1:B1'', MajorDimension = ''ROWS'',
             Values = [[VString ''makis'', VInt 27]]\<rparr>],
         CallGetMetadata testRow] world1) testRow = Some 0
   \<and> metas (run noMethods
        [CallerCode [VSlice person []],
         CallDecodeValueRange (VPtr (TSlice person) (Some 0))
           [\<lparr>Range' = ''A1:B1'', MajorDimension = ''ROWS'',
             Values = [[VString ''makis'', VInt 27]]\<rparr>],
         CallGetMetadata testRow] world1) ! 0
       = newMetadata noMethods testRow"
proof -
  have e: "cache world0 = (\<lambda>t. None)" by (simp add: world0_def)
  have first: "getMetadata noMethods testRow (run noMethods [] world0) = Inr (0, world1)"
    by (simp add: getMetadata_def publish_def world0_def world1_def testRow_def fun_eq_iff)
  have n: "noMethods testRow = None" by (simp add: noMethods_def)
  from getMetadata_cached [OF e first]
  have second: "getMetadata noMethods testRow world1 = Inr (0, world1)"
    and later: "\<And>cs. cache (run noMethods cs world1) testRow = Some 0
                  \<and> (noMethods testRow = None \<longrightarrow>
                       metas (run noMethods cs world1) ! 0 = newMetadata noMethods testRow)"
    by blast+
  show ?thesis
    using e first second n later [of "[CallerCode [VSlice person []],
         CallDecodeValueRange (VPtr (TSlice person) (Some 0))
           [\<lparr>Range' = ''A1:B1'', MajorDimension = ''ROWS'',
             Values = [[VString ''makis'', VInt 27]]\<rparr>],
         CallGetMetadata testRow]"]
    by simp
qed

text \<open>
  The cached content does change, and an entry can be replaced. With the method
  \<open>DecodeField_rename\<close>, the descriptor that \<open>getMetadata\<close> returns for
  \<open>testRowFieldDecoder\<close> is named \<open>Name\<close> before a row is bound and \<open>renamed\<close> after,
  behind the same pointer. And two first calls that overlap both miss and both publish:
  the entry that the first one stored (pointer 0) is replaced by the second one's
  (pointer 1).
\<close>

theorem cached_header_overwritten:
  "cache (run renameMethods [CallGetMetadata testRowFieldDecoder] row0) testRowFieldDecoder = Some 0
   \<and> headers (metas (run renameMethods [CallGetMetadata testRowFieldDecoder] row0) ! 0)
       = [\<lparr>Name = ''Name'', FieldIndex = 0, FieldName = ''Name'', FieldType = TString\<rparr>]
   \<and> cache (run renameMethods
        [CallGetMetadata testRowFieldDecoder,
         CallDecodeValueRange (VPtr testRowFieldDecoder (Some 0))
           [\<lparr>Range' = ''A1'', MajorDimension = ''ROWS'', Values = [[VString ''makis'']]\<rparr>]] row0)
        testRowFieldDecoder = Some 0
   \<and> headers (metas (run renameMethods
        [CallGetMetadata testRowFieldDecoder,
         CallDecodeValueRange (VPtr testRowFieldDecoder (Some 0))
           [\<lparr>Range' = ''A1'', MajorDimension = ''ROWS'', Values = [[VString ''makis'']]\<rparr>]] row0) ! 0)
       = [\<lparr>Name = ''renamed'', FieldIndex = 0, FieldName = ''Name'', FieldType = TString\<rparr>]
   \<and> cache (snd (publish noMethods person world0)) person = Some 0
   \<and> cache (snd (publish noMethods person (snd (publish noMethods person world0)))) person
       = Some 1"
  by (simp add: step_def getMetadata_def publish_def row0_def world0_def renameMethods_def
        DecodeField_rename_def newMetadata_def testRowFieldDecoder_def person_def
        DecodeValueRange_def decodeStruct_def decodeValueAt_def decodeValue_def decodeCell_def
        assignField_def AssignableTo_def writeBack_def stateAfter_def Let_def)

section \<open>Properties of the row binding\<close>

lemma decodeCell_length:
  "decodeCell m i val s = Inr (err, s', m') \<Longrightarrow> length (headers m') = length (headers m)"
  using decodeCell_keepsMeta [of m i val s] by (simp add: stateAfter_def keepsMeta_def)

lemma decodeLoop_length:
  "decodeLoop m i row s = Inr (err, s', m') \<Longrightarrow> length (headers m') = length (headers m)"
  using decodeLoop_keepsMeta [of m i row s] by (simp add: stateAfter_def keepsMeta_def)

lemma decodeCell_in_range:
  "i < length (headers m) \<Longrightarrow> decodeCell m i val s \<noteq> Inl (IndexOutOfRange j n, st)"
  by (auto simp: decodeCell_def assignField_def Let_def
           split: option.splits sum.splits prod.splits goval.splits if_splits)

lemma decodeCell_out_of_range:
  "length (headers m) \<le> i \<Longrightarrow>
     decodeCell m i val s = Inl (IndexOutOfRange i (length (headers m)), s, m)"
  by (simp add: decodeCell_def)

lemma decodeLoop_in_range:
  "i + length row \<le> length (headers m) \<Longrightarrow>
     decodeLoop m i row s \<noteq> Inl (IndexOutOfRange j n, st)"
proof (induction row arbitrary: i s m)
  case Nil
  then show ?case by simp
next
  case (Cons val row)
  have c: "decodeCell m i val s \<noteq> Inl (IndexOutOfRange j n, st)"
    using Cons.prems by (intro decodeCell_in_range) simp
  show ?case
  proof (cases "decodeCell m i val s")
    case (Inl e)
    then show ?thesis using c by simp
  next
    case (Inr r)
    obtain err s' m' where r: "r = (err, s', m')" by (cases r) auto
    have "length (headers m') = length (headers m)"
      using Inr r by (auto dest: decodeCell_length)
    then have "decodeLoop m' (i + 1) row s' \<noteq> Inl (IndexOutOfRange j n, st)"
      using Cons.prems by (intro Cons.IH) simp
    then show ?thesis using Inr r by (cases err) simp_all
  qed
qed

lemma decodeLoop_append:
  "decodeLoop m i (xs @ ys) s =
     (case decodeLoop m i xs s of
        Inl e \<Rightarrow> Inl e
      | Inr (Some err, st) \<Rightarrow> Inr (Some err, st)
      | Inr (None, s', m') \<Rightarrow> decodeLoop m' (i + length xs) ys s')"
proof (induction xs arbitrary: i s m)
  case Nil
  then show ?case by simp
next
  case (Cons x xs)
  show ?case
    by (simp add: Cons.IH split: sum.splits prod.splits option.splits)
qed

text \<open>
  C6. The loop of \<open>decodeValue\<close> reads \<open>meta.headers[i]\<close> for the cell at position \<open>i\<close>
  without a bounds check. For a cell at a position below the number of descriptors the
  lookup is in range, so a row with at most as many cells as the type has descriptors
  is bound without any index out of range, whatever the cells and the \<open>DecodeField\<close>
  method are. A cell at a position from the number of descriptors on makes the lookup
  panic with an index out of range. So a row with more cells than descriptors (and at
  least one descriptor) behaves as its first cells do, up to the number of descriptors,
  and when these are bound without an error or a panic, the next cell panics with index
  = length = the number of descriptors, in the state that the first cells have left:
  such a row never returns without an error; the excess cells are not skipped.
\<close>

theorem decodeValue_bounds:
  "(i < length (headers m) \<longrightarrow>
      (\<forall>j n st. decodeCell m i val s \<noteq> Inl (IndexOutOfRange j n, st)))
   \<and> (length row \<le> length (headers m) \<longrightarrow>
        (\<forall>j n st. decodeValue row (Some m) s \<noteq> Inl (IndexOutOfRange j n, st)))
   \<and> (length (headers m) \<le> i \<longrightarrow>
        decodeCell m i val s = Inl (IndexOutOfRange i (length (headers m)), s, m))
   \<and> (headers m \<noteq> [] \<and> length (headers m) < length row \<longrightarrow>
        decodeValue row (Some m) s =
          (case decodeValue (take (length (headers m)) row) (Some m) s of
             Inl e \<Rightarrow> Inl e
           | Inr (Some err, st) \<Rightarrow> Inr (Some err, st)
           | Inr (None, st) \<Rightarrow>
               Inl (IndexOutOfRange (length (headers m)) (length (headers m)), st))
        \<and> (\<forall>st. decodeValue row (Some m) s \<noteq> Inr (None, st)))"
proof (intro conjI impI allI)
  fix j n st
  assume "i < length (headers m)"
  then show "decodeCell m i val s \<noteq> Inl (IndexOutOfRange j n, st)"
    by (rule decodeCell_in_range)
next
  fix j n st
  assume "length row \<le> length (headers m)"
  then have "decodeLoop m 0 row s \<noteq> Inl (IndexOutOfRange j n, st')" for st'
    by (intro decodeLoop_in_range) simp
  then show "decodeValue row (Some m) s \<noteq> Inl (IndexOutOfRange j n, st)"
    by (auto simp: decodeValue_def split: sum.splits prod.splits)
next
  assume "length (headers m) \<le> i"
  then show "decodeCell m i val s = Inl (IndexOutOfRange i (length (headers m)), s, m)"
    by (rule decodeCell_out_of_range)
next
  assume long: "headers m \<noteq> [] \<and> length (headers m) < length row"
  define n where "n = length (headers m)"
  have n: "0 < n" "n < length row" using long by (auto simp: n_def)
  obtain y ys where d: "drop n row = y # ys"
    using n by (cases "drop n row") auto
  have split: "row = take n row @ y # ys"
    using d by (metis append_take_drop_id)
  have tk: "take n row \<noteq> []" "length (take n row) = n" using n by auto
  have whole: "decodeValue row (Some m) s =
      (case decodeLoop m 0 row s of
         Inl (p, s', m') \<Rightarrow> Inl (p, s', Some m')
       | Inr (err, s', m') \<Rightarrow> Inr (err, s', Some m'))"
    using long by (auto simp: decodeValue_def)
  have pre: "decodeValue (take n row) (Some m) s =
      (case decodeLoop m 0 (take n row) s of
         Inl (p, s', m') \<Rightarrow> Inl (p, s', Some m')
       | Inr (err, s', m') \<Rightarrow> Inr (err, s', Some m'))"
    using long tk by (auto simp: decodeValue_def)
  have app: "decodeLoop m 0 row s =
     (case decodeLoop m 0 (take n row) s of
        Inl e \<Rightarrow> Inl e
      | Inr (Some err, st) \<Rightarrow> Inr (Some err, st)
      | Inr (None, s', m') \<Rightarrow> decodeLoop m' n (y # ys) s')"
    using decodeLoop_append [of m 0 "take n row" "y # ys" s] split tk
    by (simp split: sum.splits prod.splits option.splits)
  have excess: "decodeLoop m' n (y # ys) s' = Inl (IndexOutOfRange n n, s', m')"
    if "decodeLoop m 0 (take n row) s = Inr (None, s', m')" for s' m'
  proof -
    have "length (headers m') = n" using decodeLoop_length [OF that] by (simp add: n_def)
    then show ?thesis by (simp add: decodeCell_out_of_range)
  qed
  have eq: "decodeValue row (Some m) s =
          (case decodeValue (take n row) (Some m) s of
             Inl e \<Rightarrow> Inl e
           | Inr (Some err, st) \<Rightarrow> Inr (Some err, st)
           | Inr (None, st) \<Rightarrow> Inl (IndexOutOfRange n n, st))"
    unfolding whole pre app using excess
    by (auto split: sum.splits prod.splits option.splits)
  show "decodeValue row (Some m) s =
          (case decodeValue (take (length (headers m)) row) (Some m) s of
             Inl e \<Rightarrow> Inl e
           | Inr (Some err, st) \<Rightarrow> Inr (Some err, st)
           | Inr (None, st) \<Rightarrow>
               Inl (IndexOutOfRange (length (headers m)) (length (headers m)), st))"
    using eq unfolding n_def .
  fix st
  show "decodeValue row (Some m) s \<noteq> Inr (None, st)"
    unfolding eq by (auto split: sum.splits prod.splits option.splits)
qed

lemma describe_person:
  "headers (newMetadata noMethods person) =
     [\<lparr>Name = ''Name'', FieldIndex = 0, FieldName = ''Name'', FieldType = TString\<rparr>,
      \<lparr>Name = ''Age'', FieldIndex = 1, FieldName = ''Age'', FieldType = TInt\<rparr>]"
  by (simp add: newMetadata_def person_def)

theorem decodeValue_bounds_witness:
  "length [VString ''makis''] \<le> length (headers (newMetadata noMethods person))
   \<and> decodeValue [VString ''makis''] (Some (newMetadata noMethods person)) (Zero person)
       = Inr (None, VStruct person [VString ''makis'', VInt 0],
              Some (newMetadata noMethods person))
   \<and> headers (newMetadata noMethods person) \<noteq> []
   \<and> length (headers (newMetadata noMethods person))
       < length [VString ''makis'', VInt 27, VString ''extra'']
   \<and> decodeValue [VString ''makis'', VInt 27, VString ''extra'']
        (Some (newMetadata noMethods person)) (Zero person)
       = Inl (IndexOutOfRange 2 2, VStruct person [VString ''makis'', VInt 27],
              Some (newMetadata noMethods person))"
proof -
  have short: "decodeValue [VString ''makis''] (Some (newMetadata noMethods person)) (Zero person)
       = Inr (None, VStruct person [VString ''makis'', VInt 0],
              Some (newMetadata noMethods person))"
    by (simp add: decodeValue_def decodeCell_def assignField_def AssignableTo_def
          newMetadata_def person_def noMethods_def)
  have pre: "decodeValue [VString ''makis'', VInt 27]
        (Some (newMetadata noMethods person)) (Zero person)
       = Inr (None, VStruct person [VString ''makis'', VInt 27],
              Some (newMetadata noMethods person))"
    by (simp add: decodeValue_def decodeCell_def assignField_def AssignableTo_def
          newMetadata_def person_def noMethods_def)
  have hs: "length (headers (newMetadata noMethods person)) = 2"
    and ne: "headers (newMetadata noMethods person) \<noteq> []"
    by (simp_all add: describe_person)
  show ?thesis
    using decodeValue_bounds [where m = "newMetadata noMethods person"
            and row = "[VString ''makis'', VInt 27, VString ''extra'']" and s = "Zero person"
            and i = 0 and val = "VString ''makis''"]
          short pre hs ne
    by simp
qed

lemma assignField_ok:
  assumes "val \<noteq> VNil" and "FieldIndex h < length (Fields t)"
    and "f_PkgPath (Fields t ! FieldIndex h) = []" and "length vs = length (Fields t)"
  shows "assignField h val (VStruct t vs) =
           Inr (VStruct t (if CanAssign val (FieldType h) then vs[FieldIndex h := val] else vs))"
  using assms by (cases val) (simp_all add: assignField_def CanAssign_def)

lemma decodeLoop_default:
  assumes "decodeFieldFunc m = None"
    and "\<forall>h \<in> set (headers m). FieldIndex h < length (Fields t)
                                  \<and> f_PkgPath (Fields t ! FieldIndex h) = []"
  shows "length vs = length (Fields t) \<Longrightarrow> i + length row \<le> length (headers m)
         \<Longrightarrow> VNil \<notin> set row
         \<Longrightarrow> decodeLoop m i row (VStruct t vs)
               = Inr (None, VStruct t (bindDefault (drop i (headers m)) row vs), m)"
proof (induction row arbitrary: i vs)
  case Nil
  then show ?case by simp
next
  case (Cons val row)
  let ?h = "headers m ! i"
  let ?vs1 = "if CanAssign val (FieldType ?h) then vs[FieldIndex ?h := val] else vs"
  have i: "i < length (headers m)" using Cons.prems by simp
  then have h: "FieldIndex ?h < length (Fields t)" "f_PkgPath (Fields t ! FieldIndex ?h) = []"
    using assms(2) by auto
  have v: "val \<noteq> VNil" using Cons.prems by auto
  have cell: "decodeCell m i val (VStruct t vs) = Inr (None, VStruct t ?vs1, m)"
    using i assms(1) assignField_ok [OF v h Cons.prems(1)]
    by (simp add: decodeCell_def Let_def)
  have len: "length ?vs1 = length (Fields t)" using Cons.prems by simp
  have rest: "decodeLoop m (i + 1) row (VStruct t ?vs1)
               = Inr (None, VStruct t (bindDefault (drop (i + 1) (headers m)) row ?vs1), m)"
    using Cons.prems by (intro Cons.IH [OF len]) auto
  have dr: "drop i (headers m) = ?h # drop (i + 1) (headers m)"
    using i by (simp add: Cons_nth_drop_Suc)
  show ?case
    unfolding dr using cell rest by simp
qed

lemma bindDefault_props:
  "distinct (map FieldIndex hs) \<Longrightarrow> length row \<le> length hs
   \<Longrightarrow> length (bindDefault hs row vs) = length vs
       \<and> (\<forall>i<length row. FieldIndex (hs ! i) < length vs \<longrightarrow>
             bindDefault hs row vs ! FieldIndex (hs ! i)
               = (if CanAssign (row ! i) (FieldType (hs ! i)) then row ! i
                  else vs ! FieldIndex (hs ! i)))
       \<and> (\<forall>j. j \<notin> FieldIndex ` set (take (length row) hs) \<longrightarrow>
             bindDefault hs row vs ! j = vs ! j)"
proof (induction hs row vs rule: bindDefault.induct)
  case (1 hs vs)
  then show ?case by simp
next
  case (2 val row vs)
  then show ?case by simp
next
  case (3 h hs val row vs)
  let ?vs1 = "if CanAssign val (FieldType h) then vs[FieldIndex h := val] else vs"
  have d: "distinct (map FieldIndex hs)" and nh: "FieldIndex h \<notin> FieldIndex ` set hs"
    using "3.prems" by auto
  have l: "length row \<le> length hs" using "3.prems" by simp
  note IH = "3.IH" [OF d l]
  have len: "length (bindDefault (h # hs) (val # row) vs) = length vs"
    using IH by simp
  have other: "bindDefault (h # hs) (val # row) vs ! j = vs ! j"
    if "j \<notin> FieldIndex ` set (take (length (val # row)) (h # hs))" for j
  proof -
    from that have j: "j \<noteq> FieldIndex h" "j \<notin> FieldIndex ` set (take (length row) hs)"
      by auto
    then have "bindDefault hs row ?vs1 ! j = ?vs1 ! j" using IH by blast
    then show ?thesis using j by simp
  qed
  have this_one: "bindDefault (h # hs) (val # row) vs ! FieldIndex ((h # hs) ! i)
               = (if CanAssign ((val # row) ! i) (FieldType ((h # hs) ! i)) then (val # row) ! i
                  else vs ! FieldIndex ((h # hs) ! i))"
    if "i < length (val # row)" "FieldIndex ((h # hs) ! i) < length vs" for i
  proof (cases i)
    case 0
    have "FieldIndex h \<notin> FieldIndex ` set (take (length row) hs)"
      using nh by (auto dest: in_set_takeD)
    then have "bindDefault hs row ?vs1 ! FieldIndex h = ?vs1 ! FieldIndex h"
      using IH by blast
    then show ?thesis using 0 that by simp
  next
    case (Suc k)
    then have k: "k < length row" using that by simp
    then have "hs ! k \<in> set hs" using l by simp
    then have "FieldIndex (hs ! k) \<in> FieldIndex ` set hs" by (rule imageI)
    then have ne: "FieldIndex (hs ! k) \<noteq> FieldIndex h" using nh by metis
    have "FieldIndex (hs ! k) < length ?vs1" using that Suc by simp
    then have "bindDefault hs row ?vs1 ! FieldIndex (hs ! k)
               = (if CanAssign (row ! k) (FieldType (hs ! k)) then row ! k
                  else ?vs1 ! FieldIndex (hs ! k))"
      using IH k by blast
    then show ?thesis using Suc ne by simp
  qed
  show ?case using len other this_one by blast
qed

lemma describe_good:
  "(\<forall>h \<in> set (describe typ). FieldIndex h < length (Fields typ)
                                \<and> f_PkgPath (Fields typ ! FieldIndex h) = [])
   \<and> distinct (map FieldIndex (describe typ))"
proof -
  have "map FieldIndex (describe typ) =
      filter (\<lambda>i. f_PkgPath (Fields typ ! i) = [] \<and> f_Tag (Fields typ ! i) \<noteq> ''-'')
             [0..<length (Fields typ)]"
    unfolding describe_by_index by (simp add: comp_def)
  then have "distinct (map FieldIndex (describe typ))" by simp
  moreover have "\<forall>h \<in> set (describe typ). FieldIndex h < length (Fields typ)
                                \<and> f_PkgPath (Fields typ ! FieldIndex h) = []"
    unfolding describe_by_index by auto
  ultimately show ?thesis by blast
qed

text \<open>
  C4. The default assignment, for a struct type without a \<open>DecodeField\<close> method, whose
  struct has the field values \<open>vs\<close>. The cell at position \<open>i\<close>, of runtime type \<open>vt\<close>, is
  stored as it is in the field of the \<open>i\<close>-th descriptor exactly when \<open>vt\<close> is assignable
  to the declared type of that field; otherwise the struct is left as it was; in both
  cases the iteration goes on, with no error and no panic, and the cell is never
  converted. For a whole row (with at most as many cells as descriptors, each cell
  having a runtime type) the bind returns no error, the field of the \<open>i\<close>-th descriptor
  holds the \<open>i\<close>-th cell when that one is assignable and its prior value when not, and
  every other field keeps its prior value. Binding the matrix \<open>[["makis", 27]]\<close> to an
  empty \<open>[]person\<close>, \<open>person\<close> being \<open>(Name string, Age int)\<close>, leaves the slice with the
  one record \<open>{Name: "makis", Age: 27}\<close>.
\<close>

theorem default_assignment:
  assumes "methods typ = None" and "length vs = length (Fields typ)"
  shows "(i < length (describe typ) \<and> TypeOf val = Some vt \<longrightarrow>
            decodeCell (newMetadata methods typ) i val (VStruct typ vs) =
              Inr (None, VStruct typ
                     (if AssignableTo vt (FieldType (describe typ ! i))
                      then vs[FieldIndex (describe typ ! i) := val] else vs),
                   newMetadata methods typ))
       \<and> (length row \<le> length (describe typ) \<and> VNil \<notin> set row \<longrightarrow>
            (\<exists>vs'. decodeValue row (Some (newMetadata methods typ)) (VStruct typ vs)
                      = Inr (None, VStruct typ vs', Some (newMetadata methods typ))
                  \<and> length vs' = length vs
                  \<and> (\<forall>i<length row.
                        vs' ! FieldIndex (describe typ ! i) =
                          (if CanAssign (row ! i) (FieldType (describe typ ! i)) then row ! i
                           else vs ! FieldIndex (describe typ ! i)))
                  \<and> (\<forall>j. j \<notin> FieldIndex ` set (take (length row) (describe typ)) \<longrightarrow>
                        vs' ! j = vs ! j)))
       \<and> DecodeValueRange noMethods (VPtr (TSlice person) (Some 0))
            [\<lparr>Range' = ''NamedRange'', MajorDimension = ''ROWS'',
              Values = [[VString ''makis'', VInt 27]]\<rparr>] people0
          = Inr (None,
              \<lparr>heap = [VSlice person [VStruct person [VString ''makis'', VInt 27]],
                       VStruct person [VString ''makis'', VInt 27]],
               metas = [newMetadata noMethods person],
               cache = (\<lambda>t. None)(person := Some 0)\<rparr>)"
proof (intro conjI impI)
  let ?m = "newMetadata methods typ"
  have hm: "headers ?m = describe typ" by (rule headers_newMetadata)
  have nf: "decodeFieldFunc ?m = None" using assms(1) by (simp add: newMetadata_def)
  have good: "\<forall>h \<in> set (headers ?m). FieldIndex h < length (Fields typ)
                                  \<and> f_PkgPath (Fields typ ! FieldIndex h) = []"
    unfolding hm using describe_good by blast
  {
    assume a: "i < length (describe typ) \<and> TypeOf val = Some vt"
    then have v: "val \<noteq> VNil" by auto
    have "describe typ ! i \<in> set (headers ?m)" using a hm by simp
    then have h: "FieldIndex (describe typ ! i) < length (Fields typ)"
      "f_PkgPath (Fields typ ! FieldIndex (describe typ ! i)) = []"
      using good by blast+
    show "decodeCell ?m i val (VStruct typ vs) =
              Inr (None, VStruct typ
                     (if AssignableTo vt (FieldType (describe typ ! i))
                      then vs[FieldIndex (describe typ ! i) := val] else vs),
                   newMetadata methods typ)"
      using a nf hm assignField_ok [OF v h assms(2)]
      by (simp add: decodeCell_def Let_def CanAssign_def)
  }
  {
    assume b: "length row \<le> length (describe typ) \<and> VNil \<notin> set row"
    let ?vs' = "bindDefault (describe typ) row vs"
    have "decodeLoop ?m 0 row (VStruct typ vs)
            = Inr (None, VStruct typ (bindDefault (drop 0 (headers ?m)) row vs), ?m)"
      using b hm by (intro decodeLoop_default [OF nf good assms(2)]) simp_all
    then have r: "decodeValue row (Some ?m) (VStruct typ vs) = Inr (None, VStruct typ ?vs', Some ?m)"
      using hm b by (cases row) (auto simp: decodeValue_def)
    have d: "distinct (map FieldIndex (describe typ))" using describe_good by blast
    have l: "length row \<le> length (describe typ)" using b by simp
    note P = bindDefault_props [OF d l, of vs]
    have inr: "FieldIndex (describe typ ! i) < length vs" if "i < length row" for i
    proof -
      have "describe typ ! i \<in> set (headers ?m)" using that l hm by simp
      then show ?thesis using good assms(2) by auto
    qed
    have "length ?vs' = length vs
                  \<and> (\<forall>i<length row.
                        ?vs' ! FieldIndex (describe typ ! i) =
                          (if CanAssign (row ! i) (FieldType (describe typ ! i)) then row ! i
                           else vs ! FieldIndex (describe typ ! i)))
                  \<and> (\<forall>j. j \<notin> FieldIndex ` set (take (length row) (describe typ)) \<longrightarrow>
                        ?vs' ! j = vs ! j)"
      using P inr by blast
    with r show "\<exists>vs'. decodeValue row (Some ?m) (VStruct typ vs)
                      = Inr (None, VStruct typ vs', Some (newMetadata methods typ))
                  \<and> length vs' = length vs
                  \<and> (\<forall>i<length row.
                        vs' ! FieldIndex (describe typ ! i) =
                          (if CanAssign (row ! i) (FieldType (describe typ ! i)) then row ! i
                           else vs ! FieldIndex (describe typ ! i)))
                  \<and> (\<forall>j. j \<notin> FieldIndex ` set (take (length row) (describe typ)) \<longrightarrow>
                        vs' ! j = vs ! j)"
      by blast
  }
  show "DecodeValueRange noMethods (VPtr (TSlice person) (Some 0))
            [\<lparr>Range' = ''NamedRange'', MajorDimension = ''ROWS'',
              Values = [[VString ''makis'', VInt 27]]\<rparr>] people0
          = Inr (None,
              \<lparr>heap = [VSlice person [VStruct person [VString ''makis'', VInt 27]],
                       VStruct person [VString ''makis'', VInt 27]],
               metas = [newMetadata noMethods person],
               cache = (\<lambda>t. None)(person := Some 0)\<rparr>)"
    by (simp add: DecodeValueRange_def decodeSlice_def getMetadata_def publish_def writeBack_def people0_def
        New_def decodeValueAt_def decodeValue_def decodeCell_def assignField_def AssignableTo_def
        AppendSet_def newMetadata_def person_def noMethods_def Let_def)
qed

theorem default_assignment_witness:
  "noMethods person = None
   \<and> length [VString [], VInt 0] = length (Fields person)
   \<and> (1::nat) < length (describe person) \<and> TypeOf (VString ''27'') = Some TString
   \<and> decodeCell (newMetadata noMethods person) 1 (VString ''27'')
        (VStruct person [VString [], VInt 0])
       = Inr (None, VStruct person [VString [], VInt 0], newMetadata noMethods person)
   \<and> decodeCell (newMetadata noMethods person) 1 (VInt 27)
        (VStruct person [VString [], VInt 0])
       = Inr (None, VStruct person [VString [], VInt 27], newMetadata noMethods person)
   \<and> length [VString ''makis'', VString ''27''] \<le> length (describe person)
   \<and> VNil \<notin> set [VString ''makis'', VString ''27'']
   \<and> decodeValue [VString ''makis'', VString ''27''] (Some (newMetadata noMethods person))
        (VStruct person [VString [], VInt 0])
       = Inr (None, VStruct person [VString ''makis'', VInt 0],
              Some (newMetadata noMethods person))"
proof -
  have a: "noMethods person = None" by (simp add: noMethods_def)
  have b: "length [VString [], VInt 0] = length (Fields person)" by (simp add: person_def)
  have d: "describe person =
     [\<lparr>Name = ''Name'', FieldIndex = 0, FieldName = ''Name'', FieldType = TString\<rparr>,
      \<lparr>Name = ''Age'', FieldIndex = 1, FieldName = ''Age'', FieldType = TInt\<rparr>]"
    using describe_person by (simp add: headers_newMetadata)
  have row: "decodeValue [VString ''makis'', VString ''27''] (Some (newMetadata noMethods person))
        (VStruct person [VString [], VInt 0])
       = Inr (None, VStruct person [VString ''makis'', VInt 0],
              Some (newMetadata noMethods person))"
    by (simp add: decodeValue_def decodeCell_def assignField_def AssignableTo_def
          newMetadata_def person_def noMethods_def)
  show ?thesis
    using default_assignment [where methods = noMethods and i = 1 and val = "VString ''27''"
            and vt = TString and row = "[VString ''makis'', VString ''27'']", OF a b]
          default_assignment [where methods = noMethods and i = 1 and val = "VInt 27"
            and vt = TInt and row = "[]", OF a b]
          a b row
    by (simp add: d AssignableTo_def)
qed

section \<open>Properties of the custom field decoder\<close>




section \<open>Properties of the binding of a sequence\<close>

lemma elemsFrom_length: "length (elemsFrom typ ptr a recs) = length recs"
  by (induction recs arbitrary: a) simp_all

lemma elemsFrom_nth:
  "k < length recs \<Longrightarrow>
     elemsFrom typ ptr a recs ! k = (if ptr then VPtr typ (Some (a + k)) else recs ! k)"
proof (induction recs arbitrary: a k)
  case Nil
  then show ?case by simp
next
  case (Cons r rs)
  then show ?case by (cases k) simp_all
qed

lemma bindAll_length: "bindAll typ m rows = Some (recs, mf) \<Longrightarrow> length recs = length rows"
proof (induction rows arbitrary: m recs)
  case Nil
  then show ?case by simp
next
  case (Cons row rows)
  then show ?case
    by (auto split: sum.splits prod.splits option.splits)
qed

lemma rowsLoop_ok:
  assumes "d < length (heap w)" and "heap w ! d = VSlice et old" and "m < length (metas w)"
    and "bindAll typ (metas w ! m) rows = Some (recs, mf)"
  shows "rowsLoop typ m ptr d rows w =
           Inr (None, w\<lparr>heap := (heap w @ recs)
                                  [d := VSlice et (old @ elemsFrom typ ptr (length (heap w)) recs)],
                         metas := (metas w)[m := mf]\<rparr>)"
  using assms
proof (induction rows arbitrary: w old recs)
  case Nil
  then have "recs = []" "mf = metas w ! m" by simp_all
  then show ?case using Nil.prems(1,2,3)
    by (simp add: list_update_same_conv [THEN iffD2])
next
  case (Cons row rows)
  let ?a = "length (heap w)"
  let ?w1 = "w\<lparr>heap := heap w @ [Zero typ]\<rparr>"
  from Cons.prems(4) obtain s m' recs' where
    dv: "decodeValue row (Some (metas w ! m)) (Zero typ) = Inr (None, s, Some m')"
    and rest: "bindAll typ m' rows = Some (recs', mf)" and recs: "recs = s # recs'"
    by (auto split: sum.splits prod.splits option.splits)
  let ?w2 = "w\<lparr>heap := heap w @ [s], metas := (metas w)[m := m']\<rparr>"
  have at: "decodeValueAt row m ?a ?w1 = Inr (None, ?w2)"
    using dv Cons.prems(3) by (simp add: decodeValueAt_def writeBack_def)
  let ?x = "if ptr then VPtr typ (Some ?a) else s"
  let ?w3 = "?w2\<lparr>heap := (heap ?w2)[d := VSlice et (old @ [?x])]\<rparr>"
  have app: "AppendSet d (if ptr then VPtr typ (Some ?a) else heap ?w2 ! ?a) ?w2 = Inr ?w3"
    using Cons.prems(1,2) by (simp add: AppendSet_def nth_append)
  have step: "rowsLoop typ m ptr d (row # rows) w = rowsLoop typ m ptr d rows ?w3"
    using at app by (simp add: New_def)
  have d3: "d < length (heap ?w3)" using Cons.prems(1) by simp
  have h3: "heap ?w3 ! d = VSlice et (old @ [?x])" using Cons.prems(1) by simp
  have m3: "m < length (metas ?w3)" using Cons.prems(3) by simp
  have b3: "bindAll typ (metas ?w3 ! m) rows = Some (recs', mf)"
    using rest Cons.prems(3) by simp
  have "rowsLoop typ m ptr d rows ?w3 =
           Inr (None, ?w3\<lparr>heap := (heap ?w3 @ recs')
                                  [d := VSlice et ((old @ [?x]) @ elemsFrom typ ptr (length (heap ?w3)) recs')],
                         metas := (metas ?w3)[m := mf]\<rparr>)"
    by (rule Cons.IH [OF d3 h3 m3 b3])
  moreover have "(heap ?w3 @ recs')[d := VSlice et ((old @ [?x]) @ elemsFrom typ ptr (length (heap ?w3)) recs')]
      = (heap w @ recs)[d := VSlice et (old @ elemsFrom typ ptr ?a recs)]"
    using Cons.prems(1) recs by (simp add: list_update_append)
  ultimately show ?case using step by simp
qed

lemma rowsLoop_append:
  "rowsLoop typ m ptr d (xs @ ys) w =
     (case rowsLoop typ m ptr d xs w of
        Inl e \<Rightarrow> Inl e
      | Inr (Some err, w') \<Rightarrow> Inr (Some err, w')
      | Inr (None, w') \<Rightarrow> rowsLoop typ m ptr d ys w')"
proof (induction xs arbitrary: w)
  case Nil
  then show ?case by simp
next
  case (Cons x xs)
  let ?a = "length (heap w)"
  let ?w1 = "w\<lparr>heap := heap w @ [Zero typ]\<rparr>"
  show ?case
  proof (cases "decodeValueAt x m ?a ?w1")
    case (Inl e)
    then show ?thesis by (simp add: New_def)
  next
    case (Inr r)
    obtain err w2 where r: "r = (err, w2)" by (cases r) auto
    show ?thesis
    proof (cases err)
      case (Some e)
      then show ?thesis using Inr r by (simp add: New_def)
    next
      case None
      show ?thesis
      proof (cases "AppendSet d (if ptr then VPtr typ (Some ?a) else heap w2 ! ?a) w2")
        case (Inl p)
        then show ?thesis using \<open>decodeValueAt x m ?a ?w1 = Inr r\<close> r None
          by (simp add: New_def)
      next
        case (Inr w3)
        then show ?thesis using \<open>decodeValueAt x m ?a ?w1 = Inr r\<close> r None Cons.IH [of w3]
          by (simp add: New_def)
      qed
    qed
  qed
qed

lemma rangesLoop_concat:
  "rangesLoop typ m ptr d rvs w = rowsLoop typ m ptr d (concat (map Values rvs)) w"
proof (induction rvs arbitrary: w)
  case Nil
  then show ?case by simp
next
  case (Cons rv rvs)
  show ?case
    by (simp add: rowsLoop_append Cons.IH split: sum.splits prod.splits option.splits)
qed

lemma getMetadata_heap: "getMetadata methods typ w = Inr (m, w1) \<Longrightarrow> heap w1 = heap w"
  by (auto simp: getMetadata_def publish_def Let_def split: option.splits if_splits)

lemma bindAll_plain:
  "decodeFieldFunc m = None \<Longrightarrow> bindAll typ m rows = Some (recs, mf) \<Longrightarrow>
     mf = m \<and> (\<forall>k<length rows.
                  decodeValue (rows ! k) (Some m) (Zero typ) = Inr (None, recs ! k, Some m))"
proof (induction rows arbitrary: recs)
  case Nil
  then show ?case by simp
next
  case (Cons row rows)
  from Cons.prems(2) obtain s m' recs' where
    dv: "decodeValue row (Some m) (Zero typ) = Inr (None, s, Some m')"
    and rest: "bindAll typ m' rows = Some (recs', mf)" and recs: "recs = s # recs'"
    by (auto split: sum.splits prod.splits option.splits)
  have "m' = m"
    using decodeValue_keepsMeta [of row m "Zero typ"] dv Cons.prems(1)
    by (simp add: stateAfter_def keepsMeta_def)
  then have IH: "mf = m \<and> (\<forall>k<length rows.
                  decodeValue (rows ! k) (Some m) (Zero typ) = Inr (None, recs' ! k, Some m))"
    using Cons.IH [OF Cons.prems(1)] rest by simp
  show ?case
  proof (intro conjI allI impI)
    show "mf = m" using IH by simp
    fix k
    assume "k < length (row # rows)"
    then show "decodeValue ((row # rows) ! k) (Some m) (Zero typ)
                 = Inr (None, recs ! k, Some m)"
      using IH dv recs \<open>m' = m\<close> by (cases k) simp_all
  qed
qed

text \<open>
  C1. Binding to a sequence. The destination points to a slice whose elements are structs
  of the type \<open>typ\<close>, or pointers to such structs. When the first matrix has at least one
  row and every row of every matrix is bound without an error and without a panic,
  \<open>DecodeValueRange\<close> returns no error and has appended one element per row, \<open>N\<close>
  elements for \<open>N\<close> rows in total, after the elements that the slice had, in the order
  of the rows: the rows of a matrix in their order, the matrices in the order in which
  they are given. The \<open>k\<close>-th appended element comes from the \<open>k\<close>-th row, bound into a
  newly allocated zero struct. For a slice of pointers it is the pointer to that new
  struct, at an address that was not allocated before the call and that no other
  element has, and the struct behind it is the record; for a slice of structs it is the
  value of that struct, a copy.
\<close>

theorem sequence_bind:
  assumes "Kind_of typ = KStruct" and "et = (if ptrElements then TPtr typ else typ)"
    and "rangeValues \<noteq> []" and "Values (rangeValues ! 0) \<noteq> []"
    and "d < length (heap w)" and "heap w ! d = VSlice et old"
    and "getMetadata methods typ w = Inr (m, w1)" and "m < length (metas w1)"
    and "bindAll typ (metas w1 ! m) (concat (map Values rangeValues)) = Some (recs, mf)"
  shows "DecodeValueRange methods (VPtr (TSlice et) (Some d)) rangeValues w =
           Inr (None,
             w1\<lparr>heap := (heap w @ recs)
                     [d := VSlice et (old @ elemsFrom typ ptrElements (length (heap w)) recs)],
                metas := (metas w1)[m := mf]\<rparr>)
       \<and> length recs = length (concat (map Values rangeValues))
       \<and> length (elemsFrom typ ptrElements (length (heap w)) recs)
           = length (concat (map Values rangeValues))
       \<and> (\<forall>k<length recs.
             elemsFrom typ ptrElements (length (heap w)) recs ! k
               = (if ptrElements then VPtr typ (Some (length (heap w) + k)) else recs ! k)
             \<and> (heap w @ recs)
                  [d := VSlice et (old @ elemsFrom typ ptrElements (length (heap w)) recs)]
                  ! (length (heap w) + k) = recs ! k)
       \<and> (decodeFieldFunc (metas w1 ! m) = None \<longrightarrow>
             mf = metas w1 ! m
             \<and> (\<forall>k<length recs.
                   decodeValue (concat (map Values rangeValues) ! k) (Some (metas w1 ! m))
                     (Zero typ)
                   = Inr (None, recs ! k, Some (metas w1 ! m))))"
proof -
  let ?rows = "concat (map Values rangeValues)"
  let ?a = "length (heap w)"
  have hp: "heap w1 = heap w" using assms(7) by (rule getMetadata_heap)
  have len: "length recs = length ?rows" using assms(9) by (rule bindAll_length)
  have loop: "rangesLoop typ m ptrElements d rangeValues w1 =
           Inr (None,
             w1\<lparr>heap := (heap w @ recs)
                     [d := VSlice et (old @ elemsFrom typ ptrElements ?a recs)],
                metas := (metas w1)[m := mf]\<rparr>)"
    unfolding rangesLoop_concat
    using rowsLoop_ok [of d w1 et old m "typ" ?rows recs mf ptrElements] assms(5,6,8,9) hp
    by simp
  have slice: "decodeSlice methods typ ptrElements d rangeValues w =
           Inr (None,
             w1\<lparr>heap := (heap w @ recs)
                     [d := VSlice et (old @ elemsFrom typ ptrElements ?a recs)],
                metas := (metas w1)[m := mf]\<rparr>)"
    using assms(7) loop by (simp add: decodeSlice_def)
  have call: "DecodeValueRange methods (VPtr (TSlice et) (Some d)) rangeValues w
          = decodeSlice methods typ ptrElements d rangeValues w"
    using assms(1,2,3,4) by (simp add: DecodeValueRange_def)
  have each: "elemsFrom typ ptrElements ?a recs ! k
               = (if ptrElements then VPtr typ (Some (?a + k)) else recs ! k)
             \<and> (heap w @ recs)[d := VSlice et (old @ elemsFrom typ ptrElements ?a recs)]
                  ! (?a + k) = recs ! k" if "k < length recs" for k
    using that assms(5) by (simp add: elemsFrom_nth nth_append)
  have plain: "mf = metas w1 ! m
             \<and> (\<forall>k<length recs.
                   decodeValue (?rows ! k) (Some (metas w1 ! m)) (Zero typ)
                   = Inr (None, recs ! k, Some (metas w1 ! m)))"
    if "decodeFieldFunc (metas w1 ! m) = None"
    using bindAll_plain [OF that assms(9)] len by simp
  show ?thesis
    using call slice len each plain by (simp add: elemsFrom_length)
qed

theorem sequence_bind_witness:
  "Kind_of person = KStruct
   \<and> [\<lparr>Range' = ''A1:B2'', MajorDimension = ''ROWS'',
         Values = [[VString ''makis'', VInt 27], [VString ''efi'', VInt 30]]\<rparr>,
        \<lparr>Range' = ''A3:B3'', MajorDimension = ''ROWS'',
         Values = [[VString ''giwrgos'', VInt 40]]\<rparr>] \<noteq> []
   \<and> (0::nat) < length (heap people0) \<and> heap people0 ! 0 = VSlice person []
   \<and> DecodeValueRange noMethods (VPtr (TSlice person) (Some 0))
        [\<lparr>Range' = ''A1:B2'', MajorDimension = ''ROWS'',
          Values = [[VString ''makis'', VInt 27], [VString ''efi'', VInt 30]]\<rparr>,
         \<lparr>Range' = ''A3:B3'', MajorDimension = ''ROWS'',
          Values = [[VString ''giwrgos'', VInt 40]]\<rparr>] people0
       = Inr (None,
           \<lparr>heap = [VSlice person [VStruct person [VString ''makis'', VInt 27],
                                    VStruct person [VString ''efi'', VInt 30],
                                    VStruct person [VString ''giwrgos'', VInt 40]],
                    VStruct person [VString ''makis'', VInt 27],
                    VStruct person [VString ''efi'', VInt 30],
                    VStruct person [VString ''giwrgos'', VInt 40]],
            metas = [newMetadata noMethods person],
            cache = (\<lambda>t. None)(person := Some 0)\<rparr>)
   \<and> DecodeValueRange noMethods (VPtr (TSlice (TPtr person)) (Some 0))
        [\<lparr>Range' = ''A1:B2'', MajorDimension = ''ROWS'',
          Values = [[VString ''makis'', VInt 27], [VString ''efi'', VInt 30]]\<rparr>,
         \<lparr>Range' = ''A3:B3'', MajorDimension = ''ROWS'',
          Values = [[VString ''giwrgos'', VInt 40]]\<rparr>]
        \<lparr>heap = [VSlice (TPtr person) []], metas = [], cache = (\<lambda>t. None)\<rparr>
       = Inr (None,
           \<lparr>heap = [VSlice (TPtr person) [VPtr person (Some 1), VPtr person (Some 2),
                                           VPtr person (Some 3)],
                    VStruct person [VString ''makis'', VInt 27],
                    VStruct person [VString ''efi'', VInt 30],
                    VStruct person [VString ''giwrgos'', VInt 40]],
            metas = [newMetadata noMethods person],
            cache = (\<lambda>t. None)(person := Some 0)\<rparr>)"
proof -
  let ?rvs = "[\<lparr>Range' = ''A1:B2'', MajorDimension = ''ROWS'',
          Values = [[VString ''makis'', VInt 27], [VString ''efi'', VInt 30]]\<rparr>,
         \<lparr>Range' = ''A3:B3'', MajorDimension = ''ROWS'',
          Values = [[VString ''giwrgos'', VInt 40]]\<rparr>]"
  let ?recs = "[VStruct person [VString ''makis'', VInt 27],
                VStruct person [VString ''efi'', VInt 30],
                VStruct person [VString ''giwrgos'', VInt 40]]"
  let ?ptrs = "\<lparr>heap = [VSlice (TPtr person) []], metas = [], cache = (\<lambda>t. None)\<rparr>"
  let ?m = "newMetadata noMethods person"
  have k: "Kind_of person = KStruct" by (simp add: person_def)
  have e0: "person = (if False then TPtr person else person)" by simp
  have e1: "TPtr person = (if True then TPtr person else person)" by simp
  have ne: "?rvs \<noteq> []" by simp
  have nv: "Values (?rvs ! 0) \<noteq> []" by simp
  have d0: "0 < length (heap people0)" and h0: "heap people0 ! 0 = VSlice person []"
    by (simp_all add: people0_def)
  have d1: "0 < length (heap ?ptrs)" and h1: "heap ?ptrs ! 0 = VSlice (TPtr person) []"
    by simp_all
  have g0: "getMetadata noMethods person people0
      = Inr (0, people0\<lparr>metas := [?m], cache := (\<lambda>t. None)(person := Some 0)\<rparr>)"
    by (simp add: getMetadata_def publish_def people0_def k)
  have g1: "getMetadata noMethods person ?ptrs
      = Inr (0, ?ptrs\<lparr>metas := [?m], cache := (\<lambda>t. None)(person := Some 0)\<rparr>)"
    by (simp add: getMetadata_def publish_def k)
  have l0: "0 < length (metas (people0\<lparr>metas := [?m], cache := (\<lambda>t. None)(person := Some 0)\<rparr>))"
    and l1: "0 < length (metas (?ptrs\<lparr>metas := [?m], cache := (\<lambda>t. None)(person := Some 0)\<rparr>))"
    by simp_all
  have b: "bindAll person ?m (concat (map Values ?rvs)) = Some (?recs, ?m)"
    by (simp add: decodeValue_def decodeCell_def assignField_def AssignableTo_def
          newMetadata_def person_def noMethods_def)
  have b0: "bindAll person
      (metas (people0\<lparr>metas := [?m], cache := (\<lambda>t. None)(person := Some 0)\<rparr>) ! 0)
      (concat (map Values ?rvs)) = Some (?recs, ?m)"
    using b by simp
  have b1: "bindAll person
      (metas (?ptrs\<lparr>metas := [?m], cache := (\<lambda>t. None)(person := Some 0)\<rparr>) ! 0)
      (concat (map Values ?rvs)) = Some (?recs, ?m)"
    using b by simp
  show ?thesis
    using sequence_bind [OF k e0 ne nv d0 h0 g0 l0 b0]
          sequence_bind [OF k e1 ne nv d1 h1 g1 l1 b1] k d0 h0
    by (simp add: people0_def)
qed

text \<open>
  The count of C1 fails when the first matrix has no row: the call returns at once,
  although a later matrix has a row, and the slice stays empty. It fails as well when a
  row is not bound: with \<open>DecodeField_example\<close> the second of three rows returns an error,
  and the first row only has been appended.
\<close>

theorem sequence_bind_first_empty:
  "DecodeValueRange noMethods (VPtr (TSlice person) (Some 0))
     [\<lparr>Range' = ''A1:B1'', MajorDimension = ''ROWS'', Values = []\<rparr>,
      \<lparr>Range' = ''A2:B2'', MajorDimension = ''ROWS'',
       Values = [[VString ''makis'', VInt 27]]\<rparr>] people0
     = Inr (None, people0)
   \<and> heap people0 ! 0 = VSlice person []
   \<and> length (concat (map Values
        [\<lparr>Range' = ''A1:B1'', MajorDimension = ''ROWS'', Values = []\<rparr>,
         \<lparr>Range' = ''A2:B2'', MajorDimension = ''ROWS'',
          Values = [[VString ''makis'', VInt 27]]\<rparr>])) = 1
   \<and> DecodeValueRange exampleMethods (VPtr (TSlice (TPtr testRowFieldDecoder)) (Some 0))
        [\<lparr>Range' = ''A1:A3'', MajorDimension = ''ROWS'',
          Values = [[VString ''makis''], [VBool True], [VString ''efi'']]\<rparr>] ptrRows0
       = Inr (Some (errorString ''bad cell''),
           \<lparr>heap = [VSlice (TPtr testRowFieldDecoder) [VPtr testRowFieldDecoder (Some 1)],
                    VStruct testRowFieldDecoder [VString ''makis custom value''],
                    VStruct testRowFieldDecoder [VString []]],
            metas = [newMetadata exampleMethods testRowFieldDecoder],
            cache = (\<lambda>t. None)(testRowFieldDecoder := Some 0)\<rparr>)"
  by (simp add: DecodeValueRange_def decodeSlice_def getMetadata_def publish_def ptrRows0_def
        people0_def
        New_def decodeValueAt_def decodeValue_def decodeCell_def assignField_def AssignableTo_def
        AppendSet_def writeBack_def newMetadata_def testRowFieldDecoder_def exampleMethods_def
        DecodeField_example_def setName_def Let_def)

section \<open>Properties of the transport\<close>

lemma Close_connections: "Close b closed = closed @ connections b"
  by (induction b arbitrary: closed) simp_all

text \<open>
  C9. A cycle through \<open>ReadJSON\<close> closes every response body that it has received from
  the HTTP client, on every path but one. When the response carries
  \<open>Content-Encoding: gzip\<close> and \<open>gzip.NewReader\<close> fails, \<open>Do\<close> returns the error
  without closing the body, and \<open>ReadJSON\<close> returns before its deferred \<open>Close\<close> is
  set up: the body of that connection is left open. On the path beside it, where the
  HTTP client returns an error, \<open>Do\<close> does close the body.
\<close>

theorem gzip_failure_leaks_body:
  "snd (ReadJSON net method url closed)
     = closed @ (if gzipFails net then [] else received net)
   \<and> (gzipFails net \<longrightarrow> received net \<noteq> [])
   \<and> ReadJSON badGzip ''GET'' ''https://sheets.googleapis.com/v4/spreadsheets/1'' []
       = (Some (plainError ''gzip: invalid header''), [])
   \<and> received badGzip = [7]"
proof (intro conjI)
  show "snd (ReadJSON net method url closed)
     = closed @ (if gzipFails net then [] else received net)"
    by (auto simp: ReadJSON_def Do_def gzipFails_def received_def Close_connections
             split: option.splits sum.splits prod.splits)
  have "connections b \<noteq> []" for b by (induction b) simp_all
  then show "gzipFails net \<longrightarrow> received net \<noteq> []"
    by (auto simp: gzipFails_def received_def split: option.splits sum.splits prod.splits)
  show "ReadJSON badGzip ''GET'' ''https://sheets.googleapis.com/v4/spreadsheets/1'' []
       = (Some (plainError ''gzip: invalid header''), [])"
    by (simp add: ReadJSON_def Do_def badGzip_def)
  show "received badGzip = [7]"
    by (simp add: received_def badGzip_def)
qed

theorem gzip_failure_leaks_body_witness:
  "gzipFails badGzip \<and> received badGzip = [7]
   \<and> snd (ReadJSON badGzip ''GET'' ''https://sheets.googleapis.com/v4/spreadsheets/1'' []) = []"
  using gzip_failure_leaks_body [of badGzip "''GET''"
          "''https://sheets.googleapis.com/v4/spreadsheets/1''" "[]"]
  by (simp add: gzipFails_def badGzip_def)

end
